theory Spec2Isabelle
  imports
    Complex_Main
    "HOL-Library.Char_ord"
    "HOL-Library.List_Lexorder"
    "HOL-Library.Option_ord"
    "HOL-Library.Multiset"
begin

section \<open>Python values\<close>

text \<open>
  The monitoring service (\<^verbatim>\<open>app.py\<close>) and its agent (\<^verbatim>\<open>agent.py\<close>) are dynamically
  typed: targets come from a YAML document, ingested batches from a JSON body, and a
  \<^verbatim>\<open>CheckResult\<close> accepts any value in any field. The model therefore has one type of
  Python values. A float is a rational number or one of the three special values; every
  finite double is a rational, and the comparisons of the code are exact on them.
\<close>

datatype pyfloat = FReal rat | FPosInf | FNegInf | FNaN

datatype pyval =
    PNone
  | PBool bool
  | PInt int
  | PFloat pyfloat
  | PStr string
  | PList "pyval list"
  | PDict "(string \<times> pyval) list"

text \<open>The exceptions that the modelled code can raise; \<open>OtherError\<close> carries the text
  of any exception whose class the code does not distinguish.\<close>

datatype pyexn =
    KeyError string
  | AttributeError string
  | TypeError string
  | ValueError string
  | OverflowError string
  | ProgrammingError string
  | UnicodeEncodeError string
  | OtherError string

text \<open>\<^verbatim>\<open>latency > 500\<close> and \<^verbatim>\<open>latency <= 500\<close>: every comparison with NaN is false.\<close>

fun float_gt :: "pyfloat \<Rightarrow> rat \<Rightarrow> bool" where
  "float_gt (FReal x) c = (c < x)"
| "float_gt FPosInf c = True"
| "float_gt FNegInf c = False"
| "float_gt FNaN c = False"

fun float_le :: "pyfloat \<Rightarrow> rat \<Rightarrow> bool" where
  "float_le (FReal x) c = (x \<le> c)"
| "float_le FPosInf c = False"
| "float_le FNegInf c = True"
| "float_le FNaN c = False"

text \<open>\<^verbatim>\<open>round(latency, 2)\<close>: to the nearest multiple of 0.01, a tie to the even neighbour.\<close>

definition round_half_even :: "rat \<Rightarrow> int" where
  "round_half_even y =
     (let f = \<lfloor>y\<rfloor>; d = y - of_int f
      in if d < 1 / 2 then f else if 1 / 2 < d then f + 1 else if even f then f else f + 1)"

fun py_round2 :: "pyfloat \<Rightarrow> pyfloat" where
  "py_round2 (FReal x) = FReal (of_int (round_half_even (x * 100)) / 100)"
| "py_round2 FPosInf = FPosInf"
| "py_round2 FNegInf = FNegInf"
| "py_round2 FNaN = FNaN"

section \<open>The reporter of the agent: \<^verbatim>\<open>send_batch\<close>\<close>

text \<open>
  One POST either gets a response with a status code or raises (a transport error, a
  timeout, a failure while reading the body): the code treats every exception alike.
  The collector is the function that tells what the POST of attempt \<open>k\<close> meets. The
  trace records the POSTs and the sleeps in the order in which they happen.
\<close>

datatype post_outcome = Responded int | Raised string

datatype send_event = Post nat | Sleep nat

fun send_attempts ::
  "(nat \<Rightarrow> post_outcome) \<Rightarrow> nat list \<Rightarrow> send_event list \<Rightarrow> bool \<times> send_event list" where
  "send_attempts collector [] trace = (False, trace)"
| "send_attempts collector (attempt # rest) trace =
     (case collector attempt of
        Responded status \<Rightarrow>
          if status = 200 then (True, trace @ [Post attempt])
          else send_attempts collector rest (trace @ [Post attempt, Sleep (2 ^ attempt)])
      | Raised e \<Rightarrow>
          send_attempts collector rest (trace @ [Post attempt, Sleep (2 ^ attempt)]))"

definition send_batch :: "(nat \<Rightarrow> post_outcome) \<Rightarrow> bool \<times> send_event list" where
  "send_batch collector = send_attempts collector [0..<5] []"

definition posts :: "send_event list \<Rightarrow> nat list" where
  "posts trace = concat (map (\<lambda>e. case e of Post k \<Rightarrow> [k] | Sleep s \<Rightarrow> []) trace)"

section \<open>Python operations on values\<close>

text \<open>
  A dict is an association list read from the front. \<open>py_get\<close> is the method call
  \<^verbatim>\<open>x.get(k, default)\<close>, which only a dict has; \<open>py_subscript\<close> is \<^verbatim>\<open>x[k]\<close> for a string
  key on a dict; \<open>py_contains\<close> is \<^verbatim>\<open>k in x\<close> for a string \<open>k\<close>; \<open>py_iter\<close> gives what a
  \<^verbatim>\<open>for\<close> loop over the value visits; \<open>truthy\<close> is the truth value in a condition.
\<close>

definition dict_get :: "(string \<times> pyval) list \<Rightarrow> string \<Rightarrow> pyval \<Rightarrow> pyval" where
  "dict_get d k dflt = (case map_of d k of None \<Rightarrow> dflt | Some v \<Rightarrow> v)"

fun py_get :: "pyval \<Rightarrow> string \<Rightarrow> pyval \<Rightarrow> pyexn + pyval" where
  "py_get (PDict d) k dflt = Inr (dict_get d k dflt)"
| "py_get v k dflt = Inl (AttributeError ''object has no attribute get'')"

fun py_subscript :: "pyval \<Rightarrow> string \<Rightarrow> pyexn + pyval" where
  "py_subscript (PDict d) k = (case map_of d k of None \<Rightarrow> Inl (KeyError k) | Some v \<Rightarrow> Inr v)"
| "py_subscript (PList xs) k = Inl (TypeError ''list indices must be integers or slices, not str'')"
| "py_subscript (PStr s) k = Inl (TypeError ''string indices must be integers'')"
| "py_subscript v k = Inl (TypeError ''object is not subscriptable'')"

definition is_substring :: "string \<Rightarrow> string \<Rightarrow> bool" where
  "is_substring k s = list_ex (\<lambda>i. take (length k) (drop i s) = k) [0..<Suc (length s)]"

fun py_contains :: "string \<Rightarrow> pyval \<Rightarrow> pyexn + bool" where
  "py_contains k (PDict d) = Inr (map_of d k \<noteq> None)"
| "py_contains k (PList xs) = Inr (PStr k \<in> set xs)"
| "py_contains k (PStr s) = Inr (is_substring k s)"
| "py_contains k v = Inl (TypeError ''argument is not iterable'')"

fun py_iter :: "pyval \<Rightarrow> pyexn + pyval list" where
  "py_iter (PList xs) = Inr xs"
| "py_iter (PStr s) = Inr (map (\<lambda>c. PStr [c]) s)"
| "py_iter (PDict d) = Inr (map (\<lambda>kv. PStr (fst kv)) d)"
| "py_iter v = Inl (TypeError ''object is not iterable'')"

fun truthy :: "pyval \<Rightarrow> bool" where
  "truthy PNone = False"
| "truthy (PBool b) = b"
| "truthy (PInt i) = (i \<noteq> 0)"
| "truthy (PFloat (FReal x)) = (x \<noteq> 0)"
| "truthy (PFloat f) = True"
| "truthy (PStr s) = (s \<noteq> [])"
| "truthy (PList xs) = (xs \<noteq> [])"
| "truthy (PDict d) = (d \<noteq> [])"

text \<open>\<^verbatim>\<open>str(n)\<close> for an integer.\<close>

fun digits :: "nat \<Rightarrow> string" where
  "digits n =
     (if n < 10 then [''0123456789'' ! n]
      else digits (n div 10) @ [''0123456789'' ! (n mod 10)])"

definition str_int :: "int \<Rightarrow> string" where
  "str_int i = (if i < 0 then ''-'' @ digits (nat (- i)) else digits (nat i))"

section \<open>The clock and the libraries\<close>

text \<open>
  What the code reads from outside the repository in the parts modelled here: the UTC
  clock (microseconds since the epoch, the resolution of \<^verbatim>\<open>datetime\<close>), the rendering
  \<^verbatim>\<open>datetime.isoformat()\<close>, the local wall clock already rendered
  (\<^verbatim>\<open>datetime.now().isoformat()\<close>), the text SQLite stores for a float bound to a TEXT
  column, the number SQLite stores for a text bound to a REAL column when the text reads
  as a number, and \<^verbatim>\<open>json.dumps\<close>.
\<close>

datatype sqlval = SNull | SInt int | SReal pyfloat | SText string

record world =
  utcnow :: int
  isoformat :: "int \<Rightarrow> string"
  local_now_iso :: string
  sqlite_real_text :: "pyfloat \<Rightarrow> string"
  sqlite_text_number :: "string \<Rightarrow> sqlval option"
  json_dumps :: "pyval \<Rightarrow> string"

section \<open>The probes\<close>

text \<open>
  A probe talks to the outside: a subprocess, a socket, an HTTP session. The model takes
  what the outside does as an input (one value of the types below per call) and follows
  the code from there: which branch returns which tuple, and which exception is caught
  where. Elapsed times are in milliseconds, \<^verbatim>\<open>(time.time() - start) * 1000\<close>. The text
  of the ping output is not modelled: the input says what the three parsing attempts of
  \<^verbatim>\<open>ping_host\<close> give on it, a latency (0.0 when nothing matches) or the text of the
  exception of \<^verbatim>\<open>float()\<close>.
\<close>

datatype ping_io =
    PingExited int "string + pyfloat"
  | PingTimeoutExpired
  | PingRaised string

datatype http_io =
    HttpResponded int "string option" rat
  | HttpTimeout
  | HttpRaised string

datatype tcp_io =
    TcpConnectEx int rat
  | TcpTimeout
  | TcpGaierror string
  | TcpRaised string

text \<open>
  When \<^verbatim>\<open>dig\<close> is not installed (FileNotFoundError) the code calls
  \<^verbatim>\<open>socket.gethostbyname\<close> inside the handler, where only \<^verbatim>\<open>socket.gaierror\<close> is caught:
  any other exception of the resolver (UnicodeError for a host with an empty or
  overlong label, for one) leaves \<^verbatim>\<open>check_dns\<close>.
\<close>

datatype dns_fallback =
    Resolved rat
  | FallbackGaierror string
  | FallbackRaised pyexn

datatype dns_io =
    DigExited int bool rat
  | DigTimeoutExpired string
  | DigNotFound dns_fallback
  | DigRaised string

record network =
  ping_run :: "pyval \<Rightarrow> ping_io"
  http_get :: "pyval \<Rightarrow> http_io"
  tcp_connect :: "pyval \<Rightarrow> pyval \<Rightarrow> tcp_io"
  dig_run :: "pyval \<Rightarrow> pyval \<Rightarrow> dns_io"

type_synonym probe_result = "bool \<times> pyfloat \<times> pyval \<times> pyval"

text \<open>The result is \<open>(success, latency, error, details)\<close>; a probe of \<^verbatim>\<open>app.py\<close> that returns
  three components leaves \<open>details\<close> as \<^verbatim>\<open>check_target\<close> has initialised it, None.\<close>

definition ping_host :: "network \<Rightarrow> pyval \<Rightarrow> probe_result" where
  "ping_host net host =
     (case ping_run net host of
        PingExited returncode parsed \<Rightarrow>
          if returncode = 0 then
            (case parsed of
               Inr latency \<Rightarrow> (True, latency, PNone, PNone)
             | Inl e \<Rightarrow> (False, FReal 0, PStr e, PNone))
          else (False, FReal 0, PStr ''Host unreachable'', PNone)
      | PingTimeoutExpired \<Rightarrow> (False, FReal 0, PStr ''Timeout'', PNone)
      | PingRaised e \<Rightarrow> (False, FReal 0, PStr e, PNone))"

definition check_http :: "bool \<Rightarrow> network \<Rightarrow> pyval \<Rightarrow> probe_result" where
  "check_http in_app net url =
     (case http_get net url of
        HttpResponded st content_type latency \<Rightarrow>
          (let details = PDict [(''status_code'', PInt st),
                                (''content_type'',
                                   (case content_type of
                                      Some c \<Rightarrow> PStr c
                                    | None \<Rightarrow> if in_app then PStr ''unknown'' else PNone))]
           in if 200 \<le> st \<and> st < 400 then (True, FReal latency, PNone, details)
              else (False, FReal latency, PStr (''HTTP '' @ str_int st), details))
      | HttpTimeout \<Rightarrow> (False, FReal 0, PStr ''Timeout'', PDict [])
      | HttpRaised e \<Rightarrow> (False, FReal 0, PStr e, PDict []))"

definition check_tcp :: "network \<Rightarrow> pyval \<Rightarrow> pyval \<Rightarrow> probe_result" where
  "check_tcp net host port =
     (case tcp_connect net host port of
        TcpConnectEx result latency \<Rightarrow>
          if result = 0 then (True, FReal latency, PNone, PNone)
          else (False, FReal latency,
                PStr (''Connection refused (error: '' @ str_int result @ '')''), PNone)
      | TcpTimeout \<Rightarrow> (False, FReal 0, PStr ''Timeout'', PNone)
      | TcpGaierror e \<Rightarrow> (False, FReal 0, PStr (''DNS resolution failed: '' @ e), PNone)
      | TcpRaised e \<Rightarrow> (False, FReal 0, PStr e, PNone))"

text \<open>\<^verbatim>\<open>check_dns\<close> of \<^verbatim>\<open>app.py\<close> has a clause for the timeout of the subprocess; in
  \<^verbatim>\<open>agent.py\<close> the general clause would take it, with the text of the exception.\<close>

definition check_dns :: "bool \<Rightarrow> network \<Rightarrow> pyval \<Rightarrow> pyval \<Rightarrow> pyexn + probe_result" where
  "check_dns in_app net host dns_server =
     (case dig_run net host dns_server of
        DigExited returncode has_output latency \<Rightarrow>
          if returncode = 0 \<and> has_output then Inr (True, FReal latency, PNone, PNone)
          else Inr (False, FReal latency, PStr ''DNS resolution failed'', PNone)
      | DigTimeoutExpired e \<Rightarrow>
          Inr (False, FReal 0, PStr (if in_app then ''Timeout'' else e), PNone)
      | DigNotFound fallback \<Rightarrow>
          (case fallback of
             Resolved latency \<Rightarrow> Inr (True, FReal latency, PNone, PNone)
           | FallbackGaierror e \<Rightarrow> Inr (False, FReal 0, PStr e, PNone)
           | FallbackRaised x \<Rightarrow> Inl x)
      | DigRaised e \<Rightarrow> Inr (False, FReal 0, PStr e, PNone))"

section \<open>The store: table \<^verbatim>\<open>checks\<close>\<close>

text \<open>
  \<^verbatim>\<open>init_db\<close> creates one table. Its nine data columns have TEXT affinity, except
  \<^verbatim>\<open>latency_ms\<close> (REAL): a TEXT column holds NULL or a text, whatever was bound. The
  column \<^verbatim>\<open>id\<close> is \<^verbatim>\<open>INTEGER PRIMARY KEY AUTOINCREMENT\<close>: SQLite keeps the largest id ever
  given in \<^verbatim>\<open>sqlite_sequence\<close> and gives the next row that number plus one, so an id is
  never used twice, also after rows are deleted.
\<close>

record check_cols =
  col_agent_id :: "string option"
  col_target_name :: "string option"
  col_host :: "string option"
  col_type :: "string option"
  col_status :: "string option"
  col_latency_ms :: sqlval
  col_timestamp :: "string option"
  col_error :: "string option"
  col_details :: "string option"

record row = check_cols +
  col_id :: int

record db =
  checks :: "row list"
  sqlite_sequence :: int

definition db_ok :: "db \<Rightarrow> bool" where
  "db_ok d \<longleftrightarrow>
     distinct (map col_id (checks d)) \<and> (\<forall>r \<in> set (checks d). col_id r \<le> sqlite_sequence d)"

definition sql_insert :: "check_cols \<Rightarrow> db \<Rightarrow> db" where
  "sql_insert v d =
     (let i = sqlite_sequence d + 1
      in \<lparr>checks = checks d @ [check_cols.extend v (row.fields i)], sqlite_sequence = i\<rparr>)"

subsection \<open>\<^verbatim>\<open>get_latest_statuses\<close>\<close>

text \<open>
  The query joins the table with the maximal id of every group of
  \<^verbatim>\<open>GROUP BY agent_id, target_name\<close>. GROUP BY puts the rows whose key is NULL in one group,
  as equality on \<open>option\<close> does. The join keeps one copy of a row for every entry of the
  subquery that equals its id. The result has the nine data columns, in the order in
  which the table is scanned (SQL leaves the order open).
\<close>

definition row_key :: "'a check_cols_scheme \<Rightarrow> string option \<times> string option" where
  "row_key r = (col_agent_id r, col_target_name r)"

fun sql_max :: "int list \<Rightarrow> int option" where
  "sql_max [] = None"
| "sql_max (x # xs) = Some (fold max xs x)"

definition group_max_ids :: "row list \<Rightarrow> int option list" where
  "group_max_ids rs =
     map (\<lambda>k. sql_max (map col_id (filter (\<lambda>r. row_key r = k) rs))) (remdups (map row_key rs))"

definition latest_join :: "row list \<Rightarrow> row list" where
  "latest_join rs = [c. c \<leftarrow> rs, m \<leftarrow> group_max_ids rs, m = Some (col_id c)]"

definition get_latest_statuses :: "db \<Rightarrow> check_cols list" where
  "get_latest_statuses d = map check_cols.truncate (latest_join (checks d))"

subsection \<open>\<^verbatim>\<open>cleanup_old_records_loop\<close>: one sweep\<close>

text \<open>
  \<^verbatim>\<open>timestamp < ?\<close> compares two texts byte by byte, a proper prefix being smaller: the
  lexicographic order on \<open>string\<close>. On a NULL timestamp the comparison is NULL and the row
  stays. One pass of the loop body is \<open>cleanup_old_records\<close>; the loop then sleeps an hour.
  The retention period is the integer of the configuration. The clock is a number of
  microseconds and \<open>isoformat\<close> is total on it: a period so long that the cutoff leaves the
  years 1 to 9999 of \<^verbatim>\<open>datetime\<close>, where the subtraction raises OverflowError and the loop
  ends, is outside the model.
\<close>

definition sql_text_lt :: "string option \<Rightarrow> string \<Rightarrow> bool" where
  "sql_text_lt v p = (case v of None \<Rightarrow> False | Some t \<Rightarrow> t < p)"

definition cutoff_iso :: "world \<Rightarrow> int \<Rightarrow> string" where
  "cutoff_iso w retention_hours =
     (let seconds = retention_hours * 3600;
          cutoff = utcnow w - seconds * 1000000
      in isoformat w cutoff)"

definition cleanup_old_records :: "world \<Rightarrow> int \<Rightarrow> db \<Rightarrow> db" where
  "cleanup_old_records w retention_hours d =
     d\<lparr>checks := filter (\<lambda>r. \<not> sql_text_lt (col_timestamp r) (cutoff_iso w retention_hours)) (checks d)\<rparr>"

subsection \<open>\<^verbatim>\<open>get_recent_history\<close>\<close>

text \<open>
  \<^verbatim>\<open>WHERE agent_id = ? AND target_name = ?\<close> is never true on a NULL column.
  \<^verbatim>\<open>ORDER BY timestamp DESC\<close> puts NULL last; the order among equal timestamps is not
  fixed by SQL: the sorter of SQLite keeps such rows in the order of the scan, oldest
  row first, and so does the model, with a stable descending sort. A negative
  \<^verbatim>\<open>LIMIT\<close> means no limit in SQLite, and an integer outside 64 bits cannot be bound:
  \<^verbatim>\<open>sqlite3\<close> raises OverflowError. The Python code reverses the rows and keeps three
  columns.
\<close>

record hist =
  h_status :: "string option"
  h_latency_ms :: sqlval
  h_timestamp :: "string option"

definition int64 :: "int \<Rightarrow> bool" where
  "int64 i \<longleftrightarrow> - (2 ^ 63) \<le> i \<and> i < 2 ^ 63"

definition sql_limit :: "int \<Rightarrow> 'a list \<Rightarrow> 'a list" where
  "sql_limit n xs = (if n < 0 then xs else take (nat n) xs)"

definition recent_rows :: "db \<Rightarrow> string \<Rightarrow> string \<Rightarrow> int \<Rightarrow> row list" where
  "recent_rows d agent_id target_name limit =
     (let matching = filter (\<lambda>r. col_agent_id r = Some agent_id \<and> col_target_name r = Some target_name)
                       (checks d);
          ordered = rev (sort_key col_timestamp (rev matching))
      in rev (sql_limit limit ordered))"

definition get_recent_history :: "db \<Rightarrow> string \<Rightarrow> string \<Rightarrow> int \<Rightarrow> pyexn + hist list" where
  "get_recent_history d agent_id target_name limit =
     (if \<not> int64 limit then Inl (OverflowError ''Python int too large to convert to SQLite INTEGER'')
      else Inr (map (\<lambda>r. \<lparr>h_status = col_status r, h_latency_ms = col_latency_ms r,
                            h_timestamp = col_timestamp r\<rparr>)
                  (recent_rows d agent_id target_name limit)))"

section \<open>The ingestor: \<^verbatim>\<open>insert_check\<close> and \<^verbatim>\<open>api_ingest\<close>\<close>

text \<open>
  \<^verbatim>\<open>CheckResult\<close> is a dataclass without validation: a field holds whatever it is given.
\<close>

record CheckResult =
  target_name :: pyval
  status :: pyval
  latency_ms :: pyval
  timestamp :: pyval
  error :: pyval
  details :: pyval

text \<open>
  \<^verbatim>\<open>sqlite3\<close> binds None, an integer of 64 bits (a bool is one), a float and a str; for a
  list or a dict it raises while binding, for a larger integer OverflowError, and for a
  str that cannot be encoded UnicodeEncodeError. A str is held as its UTF-8 bytes; what
  cannot be encoded is a lone surrogate, which a JSON text can bring (\<^verbatim>\<open>"\ud800"\<close>): in
  the model it is the byte ED followed by a byte from A0 to BF. A value bound to a TEXT
  column is stored as text, and an integer bound to the REAL column as a real. Failures
  of the database itself (a full disk, a locked file) are outside the model.
\<close>

fun has_surrogate :: "string \<Rightarrow> bool" where
  "has_surrogate (a # b # s) =
     (if a = CHR 0xED \<and> 160 \<le> (of_char b :: nat) \<and> (of_char b :: nat) \<le> 191 then True
      else has_surrogate (b # s))"
| "has_surrogate s = False"

fun bindable :: "pyval \<Rightarrow> bool" where
  "bindable (PList xs) = False"
| "bindable (PDict d) = False"
| "bindable (PInt i) = int64 i"
| "bindable (PStr s) = (\<not> has_surrogate s)"
| "bindable v = True"

fun bind_error :: "pyval \<Rightarrow> pyexn" where
  "bind_error (PInt i) = OverflowError ''Python int too large to convert to SQLite INTEGER''"
| "bind_error (PStr s) = UnicodeEncodeError ''surrogates not allowed''"
| "bind_error v = ProgrammingError ''Error binding parameter: type is not supported''"

fun to_sql :: "pyval \<Rightarrow> sqlval" where
  "to_sql PNone = SNull"
| "to_sql (PBool b) = SInt (if b then 1 else 0)"
| "to_sql (PInt i) = SInt i"
| "to_sql (PFloat FNaN) = SNull"
| "to_sql (PFloat f) = SReal f"
| "to_sql (PStr s) = SText s"
| "to_sql v = SNull"

fun text_affinity :: "world \<Rightarrow> sqlval \<Rightarrow> string option" where
  "text_affinity w SNull = None"
| "text_affinity w (SInt i) = Some (str_int i)"
| "text_affinity w (SReal f) = Some (sqlite_real_text w f)"
| "text_affinity w (SText s) = Some s"

fun real_affinity :: "world \<Rightarrow> sqlval \<Rightarrow> sqlval" where
  "real_affinity w (SInt i) = SReal (FReal (of_int i))"
| "real_affinity w (SText s) = (case sqlite_text_number w s of None \<Rightarrow> SText s | Some v \<Rightarrow> v)"
| "real_affinity w v = v"

definition details_param :: "world \<Rightarrow> CheckResult \<Rightarrow> pyval" where
  "details_param w result =
     (if truthy (details result) then PStr (json_dumps w (details result)) else PNone)"

definition target_param :: "pyval \<Rightarrow> string \<Rightarrow> pyval" where
  "target_param target k = (case target of PDict t \<Rightarrow> dict_get t k PNone | _ \<Rightarrow> PNone)"

text \<open>The parameters of the INSERT that are bound as they come. The ninth, \<open>details\<close>,
  is None or the text of \<^verbatim>\<open>json.dumps\<close>, which is ASCII and always binds.\<close>

definition bound_params :: "pyval \<Rightarrow> pyval \<Rightarrow> CheckResult \<Rightarrow> pyval list" where
  "bound_params agent_id target result =
     [agent_id, target_name result, target_param target ''host'', target_param target ''type'',
      status result, latency_ms result, timestamp result, error result]"

definition insert_cols :: "world \<Rightarrow> pyval \<Rightarrow> pyval \<Rightarrow> CheckResult \<Rightarrow> check_cols" where
  "insert_cols w agent_id target result =
     \<lparr>col_agent_id = text_affinity w (to_sql agent_id),
      col_target_name = text_affinity w (to_sql (target_name result)),
      col_host = text_affinity w (to_sql (target_param target ''host'')),
      col_type = text_affinity w (to_sql (target_param target ''type'')),
      col_status = text_affinity w (to_sql (status result)),
      col_latency_ms = real_affinity w (to_sql (latency_ms result)),
      col_timestamp = text_affinity w (to_sql (timestamp result)),
      col_error = text_affinity w (to_sql (error result)),
      col_details = text_affinity w (to_sql (details_param w result))\<rparr>"

definition insert_check :: "world \<Rightarrow> pyval \<Rightarrow> pyval \<Rightarrow> CheckResult \<Rightarrow> db \<Rightarrow> pyexn + db" where
  "insert_check w agent_id target result d =
     (case find (\<lambda>v. \<not> bindable v) (bound_params agent_id target result) of
        Some v \<Rightarrow> Inl (bind_error v)
      | None \<Rightarrow> Inr (sql_insert (insert_cols w agent_id target result) d))"

text \<open>
  The request as \<^verbatim>\<open>api_ingest\<close> reads it: the header \<^verbatim>\<open>X-API-Key\<close> (absent or a text) and
  the value of \<^verbatim>\<open>request.get_json()\<close>. The configuration is the dict \<^verbatim>\<open>APP_CONFIG\<close>. An
  exception that leaves the view function (\<open>Inl\<close>) is turned into a response 500 by the
  framework; it can only happen before the first record is treated, so the store is then
  as it was.
\<close>

record request =
  x_api_key :: "string option"
  get_json :: pyval

datatype response = Response int pyval

definition record_result :: "world \<Rightarrow> (string \<times> pyval) list \<Rightarrow> CheckResult" where
  "record_result w c =
     \<lparr>target_name = dict_get c ''target_name'' PNone,
      status = dict_get c ''status'' PNone,
      latency_ms = dict_get c ''latency_ms'' (PFloat (FReal 0)),
      timestamp = dict_get c ''timestamp'' (PStr (isoformat w (utcnow w))),
      error = dict_get c ''error'' PNone,
      details = dict_get c ''details'' PNone\<rparr>"

definition record_target :: "(string \<times> pyval) list \<Rightarrow> pyval" where
  "record_target c = PDict [(''host'', dict_get c ''host'' PNone), (''type'', dict_get c ''type'' PNone)]"

fun ingest_record :: "world \<Rightarrow> pyval \<Rightarrow> pyval \<Rightarrow> db \<Rightarrow> pyexn + db" where
  "ingest_record w agent_id (PDict c) d =
     insert_check w agent_id (record_target c) (record_result w c) d"
| "ingest_record w agent_id c d = Inl (AttributeError ''object has no attribute get'')"

fun ingest_loop :: "world \<Rightarrow> pyval \<Rightarrow> pyval list \<Rightarrow> int \<Rightarrow> db \<Rightarrow> int \<times> db" where
  "ingest_loop w agent_id [] inserted d = (inserted, d)"
| "ingest_loop w agent_id (c # cs) inserted d =
     (case ingest_record w agent_id c d of
        Inl e \<Rightarrow> ingest_loop w agent_id cs inserted d
      | Inr d' \<Rightarrow> ingest_loop w agent_id cs (inserted + 1) d')"

definition unauthorized :: response where
  "unauthorized = Response 401 (PDict [(''error'', PStr ''Unauthorized'')])"

definition invalid_payload :: response where
  "invalid_payload = Response 400 (PDict [(''error'', PStr ''Invalid payload'')])"

definition ok_received :: "int \<Rightarrow> response" where
  "ok_received n = Response 200 (PDict [(''status'', PStr ''ok''), (''received'', PInt n)])"

definition key_rejected :: "(string \<times> pyval) list \<Rightarrow> string option \<Rightarrow> bool" where
  "key_rejected app_config api_key =
     (case api_key of
        None \<Rightarrow> True
      | Some k \<Rightarrow> k = [] \<or> PStr k \<noteq> dict_get app_config ''api_key'' PNone)"

definition ingest_checks :: "world \<Rightarrow> pyval \<Rightarrow> db \<Rightarrow> pyexn + (response \<times> db)" where
  "ingest_checks w payload d =
     (case py_get payload ''agent_id'' (PStr ''unknown'') of
        Inl e \<Rightarrow> Inl e
      | Inr agent_id \<Rightarrow>
          (case py_get payload ''checks'' (PList []) of
             Inl e \<Rightarrow> Inl e
           | Inr cs \<Rightarrow>
               (case py_iter cs of
                  Inl e \<Rightarrow> Inl e
                | Inr records \<Rightarrow>
                    (case ingest_loop w agent_id records 0 d of
                       (inserted, d') \<Rightarrow> Inr (ok_received inserted, d')))))"

definition api_ingest ::
  "world \<Rightarrow> (string \<times> pyval) list \<Rightarrow> request \<Rightarrow> db \<Rightarrow> pyexn + (response \<times> db)" where
  "api_ingest w app_config req d =
     (if key_rejected app_config (x_api_key req) then Inr (unauthorized, d)
      else if \<not> truthy (get_json req) then Inr (invalid_payload, d)
      else
        (case py_contains ''checks'' (get_json req) of
           Inl e \<Rightarrow> Inl e
         | Inr has_checks \<Rightarrow>
             if \<not> has_checks then Inr (invalid_payload, d)
             else ingest_checks w (get_json req) d))"






text \<open>The response of a request, and the store after it; the store is as before when an
  exception leaves the view function.\<close>

definition response_of :: "pyexn + (response \<times> db) \<Rightarrow> response option" where
  "response_of res = (case res of Inl e \<Rightarrow> None | Inr (resp, d') \<Rightarrow> Some resp)"

definition store_after :: "db \<Rightarrow> pyexn + (response \<times> db) \<Rightarrow> db" where
  "store_after d res = (case res of Inl e \<Rightarrow> d | Inr (resp, d') \<Rightarrow> d')"

definition example_config :: "(string \<times> pyval) list" where
  "example_config = [(''api_key'', PStr ''s3cret''), (''retention_hours'', PInt 24)]"

definition example_record :: "string \<Rightarrow> string \<Rightarrow> pyval" where
  "example_record name st =
     PDict [(''target_name'', PStr name), (''host'', PStr ''10.0.0.1''), (''type'', PStr ''ping''),
            (''status'', PStr st), (''latency_ms'', PFloat (FReal 12)),
            (''timestamp'', PStr ''2026-01-01T00:03:00+00:00''), (''error'', PNone), (''details'', PNone)]"

definition example_request :: "pyval \<Rightarrow> request" where
  "example_request body = \<lparr>x_api_key = Some ''s3cret'', get_json = body\<rparr>"

definition example_batch :: "pyval list" where
  "example_batch = [example_record ''web'' ''online'', PStr ''garbage'', example_record ''db'' ''offline'']"


definition example_payload :: "pyval list \<Rightarrow> pyval" where
  "example_payload records = PDict [(''agent_id'', PStr ''a1''), (''checks'', PList records)]"

section \<open>The check pipeline\<close>

text \<open>\<^verbatim>\<open>str(e)\<close>: the message of the exception; for a KeyError, the key in quotes.\<close>

fun str_exn :: "pyexn \<Rightarrow> string" where
  "str_exn (KeyError k) = [CHR 0x27] @ k @ [CHR 0x27]"
| "str_exn (AttributeError m) = m"
| "str_exn (TypeError m) = m"
| "str_exn (ValueError m) = m"
| "str_exn (OverflowError m) = m"
| "str_exn (UnicodeEncodeError m) = m"
| "str_exn (ProgrammingError m) = m"
| "str_exn (OtherError m) = m"

subsection \<open>\<^verbatim>\<open>app.py\<close>: \<^verbatim>\<open>check_target\<close> and \<^verbatim>\<open>run_checks\<close>\<close>

definition app_status :: "bool \<Rightarrow> pyfloat \<Rightarrow> string" where
  "app_status success latency =
     (if success then (if float_gt latency 500 then ''degraded'' else ''online'') else ''offline'')"

definition app_probe ::
  "network \<Rightarrow> pyval \<Rightarrow> pyval \<Rightarrow> (string \<times> pyval) list \<Rightarrow> pyexn + probe_result" where
  "app_probe net target_type host target =
     (if target_type = PStr ''ping'' then Inr (ping_host net host)
      else if target_type = PStr ''http'' then Inr (check_http True net host)
      else if target_type = PStr ''tcp'' then
        Inr (check_tcp net host (dict_get target ''port'' (PInt 80)))
      else if target_type = PStr ''dns'' then
        check_dns True net host (dict_get target ''dns_server'' (PStr ''8.8.8.8''))
      else Inr (False, FReal 0, PNone, PNone))"

fun check_target :: "world \<Rightarrow> network \<Rightarrow> pyval \<Rightarrow> pyexn + CheckResult" where
  "check_target w net (PDict target) =
     (let target_type = dict_get target ''type'' (PStr ''ping'')
      in case map_of target ''host'' of
           None \<Rightarrow> Inl (KeyError ''host'')
         | Some host \<Rightarrow>
             (case map_of target ''name'' of
                None \<Rightarrow> Inl (KeyError ''name'')
              | Some name \<Rightarrow>
                  (case app_probe net target_type host target of
                     Inl e \<Rightarrow> Inl e
                   | Inr (success, latency, err, det) \<Rightarrow>
                       Inr \<lparr>target_name = name,
                            status = PStr (app_status success latency),
                            latency_ms = PFloat (py_round2 latency),
                            timestamp = PStr (local_now_iso w),
                            error = err,
                            details = det\<rparr>)))"
| "check_target w net target = Inl (AttributeError ''object has no attribute get'')"

text \<open>
  \<^verbatim>\<open>run_checks\<close> gathers the results with \<^verbatim>\<open>return_exceptions=True\<close>, so the list holds,
  in the order of the targets, a result or the exception the check raised. The loop turns
  an exception into an offline result; the name is read with \<^verbatim>\<open>targets[i]['name']\<close>, which
  itself raises when the target has no name. A failing insert is printed and ignored. The
  pass ends with the update of the cache \<^verbatim>\<open>monitoring_results\<close>: its content is not
  modelled, only that it raises for a name that cannot be a dict key and for a
  \<^verbatim>\<open>history_size\<close> that cannot be compared with a length. The result of the model is
  the exception that ended the cycle, if any, the results of the cycle so far, and the
  store. A \<^verbatim>\<open>targets\<close> dict is iterated by key and then indexed by position, which raises
  on its first element.
\<close>

definition cycle_result :: "world \<Rightarrow> pyval \<Rightarrow> pyexn + CheckResult \<Rightarrow> pyexn + CheckResult" where
  "cycle_result w target res =
     (case res of
        Inl e \<Rightarrow>
          (case py_subscript target ''name'' of
             Inl e' \<Rightarrow> Inl e'
           | Inr name \<Rightarrow>
               Inr \<lparr>target_name = name, status = PStr ''offline'', latency_ms = PFloat (FReal 0),
                    timestamp = PStr (isoformat w (utcnow w)), error = PStr (str_exn e),
                    details = PNone\<rparr>)
      | Inr r \<Rightarrow> Inr (r\<lparr>timestamp := PStr (isoformat w (utcnow w))\<rparr>))"

fun hashable :: "pyval \<Rightarrow> bool" where
  "hashable (PList xs) = False"
| "hashable (PDict d) = False"
| "hashable v = True"

fun is_number :: "pyval \<Rightarrow> bool" where
  "is_number (PBool b) = True"
| "is_number (PInt i) = True"
| "is_number (PFloat f) = True"
| "is_number v = False"

definition cache_update :: "(string \<times> pyval) list \<Rightarrow> CheckResult \<Rightarrow> pyexn option" where
  "cache_update config result =
     (if \<not> hashable (target_name result) then Some (TypeError ''unhashable type'')
      else if \<not> is_number (dict_get config ''history_size'' (PInt 100))
      then Some (TypeError ''comparison not supported between these types'')
      else None)"

fun run_checks_loop ::
  "world \<Rightarrow> (string \<times> pyval) list \<Rightarrow> pyval \<Rightarrow> (pyval \<times> (pyexn + CheckResult)) list \<Rightarrow>
   CheckResult list \<Rightarrow> db \<Rightarrow> pyexn option \<times> CheckResult list \<times> db" where
  "run_checks_loop w config agent_id [] outs d = (None, outs, d)"
| "run_checks_loop w config agent_id ((target, res) # rest) outs d =
     (case cycle_result w target res of
        Inl e \<Rightarrow> (Some e, outs, d)
      | Inr result \<Rightarrow>
          (let d' = (case insert_check w agent_id target result d of Inl e \<Rightarrow> d | Inr d1 \<Rightarrow> d1)
           in case cache_update config result of
                Some e \<Rightarrow> (Some e, outs @ [result], d')
              | None \<Rightarrow> run_checks_loop w config agent_id rest (outs @ [result]) d'))"

fun cycle_targets :: "pyval \<Rightarrow> pyexn + pyval list" where
  "cycle_targets (PDict (kv # kvs)) = Inl (KeyError ''0'')"
| "cycle_targets v = py_iter v"

definition run_checks ::
  "world \<Rightarrow> network \<Rightarrow> (string \<times> pyval) list \<Rightarrow> db \<Rightarrow> pyexn option \<times> CheckResult list \<times> db" where
  "run_checks w net config d =
     (case cycle_targets (dict_get config ''targets'' (PList [])) of
        Inl e \<Rightarrow> (Some e, [], d)
      | Inr targets \<Rightarrow>
          run_checks_loop w config (dict_get config ''agent_id'' (PStr ''local''))
            (zip targets (map (check_target w net) targets)) [] d)"

subsection \<open>\<^verbatim>\<open>agent.py\<close>: \<^verbatim>\<open>run_target\<close> and \<^verbatim>\<open>run_cycle\<close>\<close>

definition agent_status :: "bool \<Rightarrow> pyfloat \<Rightarrow> string" where
  "agent_status success latency =
     (if success \<and> float_le latency 500 then ''online''
      else if success then ''degraded'' else ''offline'')"

definition agent_probe ::
  "network \<Rightarrow> pyval \<Rightarrow> pyval \<Rightarrow> (string \<times> pyval) list \<Rightarrow> pyexn + probe_result" where
  "agent_probe net ttype host t =
     (if ttype = PStr ''http'' then Inr (check_http False net host)
      else if ttype = PStr ''ping'' then Inr (ping_host net host)
      else if ttype = PStr ''tcp'' then Inr (check_tcp net host (dict_get t ''port'' (PInt 80)))
      else if ttype = PStr ''dns'' then
        check_dns False net host (dict_get t ''dns_server'' (PStr ''8.8.8.8''))
      else Inr (False, FReal 0, PStr ''Unknown type'', PNone))"

fun run_target :: "world \<Rightarrow> network \<Rightarrow> pyval \<Rightarrow> pyexn + pyval" where
  "run_target w net (PDict t) =
     (let ttype = dict_get t ''type'' (PStr ''ping'');
          host = dict_get t ''host'' PNone;
          name = dict_get t ''name'' PNone
      in case agent_probe net ttype host t of
           Inl e \<Rightarrow> Inl e
         | Inr (success, latency, err, det) \<Rightarrow>
             Inr (PDict [(''target_name'', name), (''host'', host), (''type'', ttype),
                         (''status'', PStr (agent_status success latency)),
                         (''latency_ms'', PFloat (py_round2 latency)),
                         (''timestamp'', PStr (isoformat w (utcnow w))),
                         (''error'', err), (''details'', det)]))"
| "run_target w net t = Inl (AttributeError ''object has no attribute get'')"

text \<open>
  \<^verbatim>\<open>run_cycle\<close> awaits the tasks in the order in which they complete, which the model
  takes as an input (a list of task indices), and appends each result. Nothing catches
  an exception of \<^verbatim>\<open>await fut\<close>: it leaves \<^verbatim>\<open>run_cycle\<close>, the results gathered so far
  are lost with it, and \<^verbatim>\<open>main_loop\<close>, which has no handler either, ends.

  The cycle first makes \<^verbatim>\<open>asyncio.Semaphore(concurrency)\<close>, which compares the value with
  0: a negative number raises ValueError and a value that is not a number TypeError,
  before any target is read. Every task acquires the semaphore before it probes. With
  the value 0 no task ever gets it, and a cycle with at least one target never returns:
  the model returns \<open>None\<close> then. Any other value only bounds how many probes run at once.
\<close>

fun semaphore_locked :: "pyval \<Rightarrow> pyexn + bool" where
  "semaphore_locked (PInt c) =
     (if c < 0 then Inl (ValueError ''Semaphore initial value must be >= 0'') else Inr (c = 0))"
| "semaphore_locked (PBool b) = Inr (\<not> b)"
| "semaphore_locked (PFloat (FReal x)) =
     (if x < 0 then Inl (ValueError ''Semaphore initial value must be >= 0'') else Inr (x = 0))"
| "semaphore_locked (PFloat FNegInf) = Inl (ValueError ''Semaphore initial value must be >= 0'')"
| "semaphore_locked (PFloat f) = Inr False"
| "semaphore_locked v = Inl (TypeError ''< not supported between instances'')"

fun await_all :: "(pyexn + pyval) list \<Rightarrow> pyval list \<Rightarrow> pyexn + pyval list" where
  "await_all [] results = Inr results"
| "await_all (Inl e # futs) results = Inl e"
| "await_all (Inr r # futs) results = await_all futs (results @ [r])"

definition run_cycle ::
  "world \<Rightarrow> network \<Rightarrow> nat list \<Rightarrow> (string \<times> pyval) list \<Rightarrow> (pyexn + pyval list) option" where
  "run_cycle w net completed cfg =
     (case semaphore_locked (dict_get cfg ''concurrency'' (PInt 6)) of
        Inl e \<Rightarrow> Some (Inl e)
      | Inr locked \<Rightarrow>
          (case py_iter (dict_get cfg ''targets'' (PList [])) of
             Inl e \<Rightarrow> Some (Inl e)
           | Inr targets \<Rightarrow>
               if locked \<and> targets \<noteq> [] then None
               else Some (await_all
                      (map (\<lambda>i. run_target w net (targets ! i))
                         (filter (\<lambda>i. i < length targets) completed))
                      [])))"

subsection \<open>Notions used to state the properties of the pipeline\<close>

text \<open>An error goes with the status offline only; the three status values; a type that
  is none of the four protocols.\<close>

definition error_only_offline :: "pyval \<Rightarrow> pyval \<Rightarrow> bool" where
  "error_only_offline st err \<longleftrightarrow>
     ((st = PStr ''online'' \<or> st = PStr ''degraded'') \<longrightarrow> err = PNone)
     \<and> (err \<noteq> PNone \<longrightarrow> st = PStr ''offline'')"

definition valid_status :: "pyval \<Rightarrow> bool" where
  "valid_status st \<longleftrightarrow> st = PStr ''online'' \<or> st = PStr ''degraded'' \<or> st = PStr ''offline''"

definition unknown_type :: "pyval \<Rightarrow> bool" where
  "unknown_type ty \<longleftrightarrow>
     ty \<noteq> PStr ''ping'' \<and> ty \<noteq> PStr ''http'' \<and> ty \<noteq> PStr ''tcp'' \<and> ty \<noteq> PStr ''dns''"

subsection \<open>A network and targets, used as concrete inputs\<close>

text \<open>Ping answers in 12 ms, one URL in 620 ms, one in 500.004 ms and every other in 120 ms, every TCP
  connection is refused (error 111), and \<^verbatim>\<open>dig\<close> is not installed for the host
  \<^verbatim>\<open>example..com\<close>, whose empty label makes the resolver raise UnicodeError.\<close>

definition example_network :: network where
  "example_network =
     \<lparr>ping_run = (\<lambda>h. PingExited 0 (Inr (FReal 12))),
      http_get = (\<lambda>u. if u = PStr ''https://slow.test'' then HttpResponded 200 (Some ''text/html'') 620
                       else if u = PStr ''https://edge.test''
                       then HttpResponded 200 (Some ''text/html'') (500004 / 1000)
                       else HttpResponded 200 (Some ''text/html'') 120),
      tcp_connect = (\<lambda>h p. TcpConnectEx 111 (1 / 2)),
      dig_run = (\<lambda>h s. if h = PStr ''example..com''
                         then DigNotFound (FallbackRaised (OtherError ''label empty or too long''))
                         else DigExited 0 True 30)\<rparr>"

definition example_target :: "string \<Rightarrow> string \<Rightarrow> string \<Rightarrow> pyval" where
  "example_target name ty host = PDict [(''name'', PStr name), (''type'', PStr ty), (''host'', PStr host)]"

definition example_targets :: "pyval list" where
  "example_targets =
     [example_target ''resolver'' ''dns'' ''example..com'',
      example_target ''web'' ''http'' ''https://example.test/200'']"

definition example_agent_config :: "(string \<times> pyval) list" where
  "example_agent_config = [(''concurrency'', PInt 6), (''targets'', PList example_targets)]"

definition example_app_config :: "(string \<times> pyval) list" where
  "example_app_config = [(''api_key'', PStr ''s3cret''), (''targets'', PList example_targets)]"

subsection \<open>Notions used to state the properties of the store\<close>

text \<open>A row is the latest of its key when no row of the same key has a larger id.\<close>

definition is_latest :: "row list \<Rightarrow> row \<Rightarrow> bool" where
  "is_latest rs c \<longleftrightarrow> (\<forall>r \<in> set rs. row_key r = row_key c \<longrightarrow> col_id r \<le> col_id c)"


subsection \<open>A small store, used as the concrete input of the witnesses\<close>

definition example_row :: "int \<Rightarrow> string \<Rightarrow> string \<Rightarrow> string \<Rightarrow> string \<Rightarrow> row" where
  "example_row i agent target st ts =
     \<lparr>col_agent_id = Some agent, col_target_name = Some target, col_host = Some ''10.0.0.1'',
      col_type = Some ''ping'', col_status = Some st, col_latency_ms = SReal (FReal 12),
      col_timestamp = Some ts, col_error = None, col_details = None, col_id = i\<rparr>"

definition example_db :: db where
  "example_db =
     \<lparr>checks =
        [example_row 1 ''a1'' ''web'' ''online'' ''2026-01-01T00:00:00+00:00'',
         example_row 2 ''a2'' ''web'' ''offline'' ''2026-01-01T00:00:30+00:00'',
         example_row 4 ''a1'' ''web'' ''degraded'' ''2026-01-01T00:01:00+00:00'',
         example_row 5 ''a1'' ''web'' ''online'' ''2026-01-01T00:02:00+00:00''],
      sqlite_sequence = 5\<rparr>"

definition example_world :: world where
  "example_world =
     \<lparr>utcnow = 1767312060000000,
      isoformat = (\<lambda>t. if t = 1767225660000000 then ''2026-01-01T00:01:00+00:00'' else ''1970-01-01T00:00:00+00:00''),
      local_now_iso = ''2026-01-02T01:01:00'',
      sqlite_real_text = (\<lambda>f. ''0.0''),
      sqlite_text_number = (\<lambda>t. None),
      json_dumps = (\<lambda>v. ''{}'')\<rparr>"

section \<open>Properties of the reporter\<close>

lemma range5: "[0..<5] = [0, 1, 2, 3, 4::nat]"
  by (simp add: upt_rec)

lemma send_attempts_posts_bound:
  "length (posts (snd (send_attempts collector as trace))) \<le> length (posts trace) + length as"
proof (induction as arbitrary: trace)
  case Nil
  show ?case by simp
next
  case (Cons a as)
  have step: "length (posts (snd (send_attempts collector as (trace @ [Post a, Sleep (2 ^ a)]))))
      \<le> length (posts trace) + length (a # as)"
    using Cons.IH [of "trace @ [Post a, Sleep (2 ^ a)]"] by (simp add: posts_def)
  show ?case
  proof (cases "collector a")
    case (Responded status)
    then show ?thesis using step by (simp add: posts_def)
  next
    case (Raised e)
    then show ?thesis using step by simp
  qed
qed

text \<open>
  C3. When the collector answers the first four POSTs with something other than 200
  (any other status, or an exception) and the fifth with 200, \<open>send_batch\<close> makes exactly
  five POSTs, sleeps 1, 2, 4 and 8 seconds, each between two consecutive POSTs, and
  returns \<open>True\<close>. Whatever the collector does, at most five POSTs are made. When none
  of the five POSTs is answered with 200, \<open>send_batch\<close> returns \<open>False\<close> after the fifth
  POST: the batch is not sent again.
\<close>

theorem send_batch_retry:
  "((\<forall>k < 4. collector k \<noteq> Responded 200) \<and> collector 4 = Responded 200 \<longrightarrow>
      send_batch collector =
        (True, [Post 0, Sleep 1, Post 1, Sleep 2, Post 2, Sleep 4, Post 3, Sleep 8, Post 4]))
   \<and> length (posts (snd (send_batch collector))) \<le> 5
   \<and> ((\<forall>k < 5. collector k \<noteq> Responded 200) \<longrightarrow>
        fst (send_batch collector) = False
        \<and> posts (snd (send_batch collector)) = [0, 1, 2, 3, 4])"
proof (intro conjI impI)
  assume h: "(\<forall>k < 4. collector k \<noteq> Responded 200) \<and> collector 4 = Responded 200"
  then have "collector 0 \<noteq> Responded 200" "collector 1 \<noteq> Responded 200"
    "collector 2 \<noteq> Responded 200" "collector 3 \<noteq> Responded 200" "collector 4 = Responded 200"
    by simp_all
  then show "send_batch collector =
      (True, [Post 0, Sleep 1, Post 1, Sleep 2, Post 2, Sleep 4, Post 3, Sleep 8, Post 4])"
    by (simp add: send_batch_def range5 split: post_outcome.splits)
next
  show "length (posts (snd (send_batch collector))) \<le> 5"
    using send_attempts_posts_bound [of collector "[0..<5]" "[]"]
    by (simp add: send_batch_def posts_def)
next
  assume h: "\<forall>k < 5. collector k \<noteq> Responded 200"
  then have ne: "collector 0 \<noteq> Responded 200" "collector 1 \<noteq> Responded 200"
    "collector 2 \<noteq> Responded 200" "collector 3 \<noteq> Responded 200" "collector 4 \<noteq> Responded 200"
    by simp_all
  then show "fst (send_batch collector) = False"
    by (simp add: send_batch_def range5 split: post_outcome.splits)
next
  assume h: "\<forall>k < 5. collector k \<noteq> Responded 200"
  then have ne: "collector 0 \<noteq> Responded 200" "collector 1 \<noteq> Responded 200"
    "collector 2 \<noteq> Responded 200" "collector 3 \<noteq> Responded 200" "collector 4 \<noteq> Responded 200"
    by simp_all
  then show "posts (snd (send_batch collector)) = [0, 1, 2, 3, 4]"
    by (simp add: send_batch_def range5 posts_def split: post_outcome.splits)
qed

theorem send_batch_retry_witness:
  "send_batch (\<lambda>k. if k < 4 then Responded 500 else Responded 200) =
     (True, [Post 0, Sleep 1, Post 1, Sleep 2, Post 2, Sleep 4, Post 3, Sleep 8, Post 4])
   \<and> send_batch (\<lambda>k. Raised ''connection refused'') =
     (False, [Post 0, Sleep 1, Post 1, Sleep 2, Post 2, Sleep 4, Post 3, Sleep 8, Post 4, Sleep 16])"
proof -
  have a: "send_batch (\<lambda>k. if k < 4 then Responded 500 else Responded 200) =
     (True, [Post 0, Sleep 1, Post 1, Sleep 2, Post 2, Sleep 4, Post 3, Sleep 8, Post 4])"
    using send_batch_retry [of "\<lambda>k. if k < 4 then Responded 500 else Responded 200"] by simp
  have b: "send_batch (\<lambda>k. Raised ''connection refused'') =
     (False, [Post 0, Sleep 1, Post 1, Sleep 2, Post 2, Sleep 4, Post 3, Sleep 8, Post 4, Sleep 16])"
    by (simp add: send_batch_def range5)
  show ?thesis using a b by simp
qed

section \<open>Properties of the store\<close>

subsection \<open>Latest status per key\<close>

lemma sql_max_Some: "xs \<noteq> [] \<Longrightarrow> sql_max xs = Some (Max (set xs))"
  by (cases xs) (simp_all add: Max.set_eq_fold del: set_simps)

lemma row_key_truncate: "row_key (check_cols.truncate r) = row_key r"
  by (simp add: row_key_def check_cols.truncate_def)

lemma group_max_entry:
  assumes "c \<in> set rs"
  shows "sql_max (map col_id (filter (\<lambda>r. row_key r = row_key c) rs))
         = Some (Max (col_id ` {r \<in> set rs. row_key r = row_key c}))"
proof -
  have ne: "map col_id (filter (\<lambda>r. row_key r = row_key c) rs) \<noteq> []"
    using assms by (auto simp: filter_empty_conv)
  have "set (map col_id (filter (\<lambda>r. row_key r = row_key c) rs)) = col_id ` {r \<in> set rs. row_key r = row_key c}"
    by auto
  with sql_max_Some [OF ne] show ?thesis by simp
qed

lemma entry_eq_iff:
  assumes d: "distinct (map col_id rs)" and c: "c \<in> set rs" and k: "k \<in> set (map row_key rs)"
  shows "sql_max (map col_id (filter (\<lambda>r. row_key r = k) rs)) = Some (col_id c)
         \<longleftrightarrow> k = row_key c \<and> is_latest rs c"
proof -
  from k obtain r0 where r0: "r0 \<in> set rs" "row_key r0 = k" by auto
  let ?G = "{r \<in> set rs. row_key r = k}"
  have fin: "finite (col_id ` ?G)" by simp
  have ne: "col_id ` ?G \<noteq> {}" using r0 by auto
  have e: "sql_max (map col_id (filter (\<lambda>r. row_key r = k) rs)) = Some (Max (col_id ` ?G))"
    using group_max_entry [OF r0(1)] r0(2) by simp
  have inj: "inj_on col_id (set rs)" using d by (simp add: distinct_map)
  show ?thesis
  proof
    assume "sql_max (map col_id (filter (\<lambda>r. row_key r = k) rs)) = Some (col_id c)"
    with e have m: "Max (col_id ` ?G) = col_id c" by simp
    have "Max (col_id ` ?G) \<in> col_id ` ?G" using fin ne by (rule Max_in)
    then obtain r where r: "r \<in> set rs" "row_key r = k" "col_id r = col_id c" using m by auto
    then have "r = c" using inj c by (auto dest: inj_onD)
    then have kc: "k = row_key c" using r by simp
    have "is_latest rs c"
      unfolding is_latest_def
    proof (intro ballI impI)
      fix r' assume "r' \<in> set rs" "row_key r' = row_key c"
      then have "col_id r' \<in> col_id ` ?G" using kc by auto
      then have "col_id r' \<le> Max (col_id ` ?G)" using fin by (rule_tac Max_ge) auto
      then show "col_id r' \<le> col_id c" using m by simp
    qed
    with kc show "k = row_key c \<and> is_latest rs c" by simp
  next
    assume a: "k = row_key c \<and> is_latest rs c"
    then have "col_id c \<in> col_id ` ?G" using c by auto
    moreover have "\<forall>x \<in> col_id ` ?G. x \<le> col_id c" using a by (auto simp: is_latest_def)
    ultimately have "Max (col_id ` ?G) = col_id c" using fin by (intro Max_eqI) auto
    with e show "sql_max (map col_id (filter (\<lambda>r. row_key r = k) rs)) = Some (col_id c)" by simp
  qed
qed

lemma filter_eq_distinct:
  "distinct xs \<Longrightarrow> x \<in> set xs \<Longrightarrow> filter (\<lambda>k. k = x) xs = [x]"
proof (induction xs)
  case Nil
  then show ?case by simp
next
  case (Cons a xs)
  show ?case
  proof (cases "a = x")
    case True
    then have "x \<notin> set xs" using Cons.prems by simp
    then have "filter (\<lambda>k. k = x) xs = []" by (auto simp: filter_empty_conv)
    with True show ?thesis by simp
  next
    case False
    then show ?thesis using Cons by simp
  qed
qed

lemma matches_of_row:
  assumes d: "distinct (map col_id rs)" and c: "c \<in> set rs"
  shows "filter (\<lambda>m. m = Some (col_id c)) (group_max_ids rs) = (if is_latest rs c then [Some (col_id c)] else [])"
proof -
  let ?e = "\<lambda>k. sql_max (map col_id (filter (\<lambda>r. row_key r = k) rs))"
  let ?ks = "remdups (map row_key rs)"
  have 1: "filter (\<lambda>m. m = Some (col_id c)) (group_max_ids rs)
       = map ?e (filter (\<lambda>k. ?e k = Some (col_id c)) ?ks)"
    by (simp add: group_max_ids_def filter_map comp_def)
  have 2: "filter (\<lambda>k. ?e k = Some (col_id c)) ?ks = filter (\<lambda>k. k = row_key c \<and> is_latest rs c) ?ks"
    by (rule filter_cong) (auto simp: entry_eq_iff [OF d c])
  show ?thesis
  proof (cases "is_latest rs c")
    case True
    have "row_key c \<in> set ?ks" using c by auto
    then have 3: "filter (\<lambda>k. k = row_key c) ?ks = [row_key c]"
      by (intro filter_eq_distinct) auto
    have "?e (row_key c) = Some (col_id c)"
      using entry_eq_iff [OF d c, of "row_key c"] c True by auto
    then show ?thesis using 1 2 3 True by simp
  next
    case False
    then show ?thesis using 1 2 by simp
  qed
qed

lemma concat_if_map:
  "concat (map (\<lambda>m. if P m then [c] else []) ms) = map (\<lambda>m. c) (filter P ms)"
  by (induction ms) auto

lemma concat_if_filter:
  "concat (map (\<lambda>c. if P c then [c] else []) xs) = filter P xs"
  by (induction xs) auto

lemma latest_join_filter:
  assumes d: "distinct (map col_id rs)"
  shows "latest_join rs = filter (is_latest rs) rs"
proof -
  have "\<And>c. c \<in> set rs \<Longrightarrow>
      concat (map (\<lambda>m. if m = Some (col_id c) then [c] else []) (group_max_ids rs))
      = (if is_latest rs c then [c] else [])"
  proof -
    fix c assume c: "c \<in> set rs"
    have "concat (map (\<lambda>m. if m = Some (col_id c) then [c] else []) (group_max_ids rs))
        = map (\<lambda>m. c) (filter (\<lambda>m. m = Some (col_id c)) (group_max_ids rs))"
      by (rule concat_if_map)
    then show "concat (map (\<lambda>m. if m = Some (col_id c) then [c] else []) (group_max_ids rs))
      = (if is_latest rs c then [c] else [])"
      using matches_of_row [OF d c] by simp
  qed
  then have "latest_join rs = concat (map (\<lambda>c. if is_latest rs c then [c] else []) rs)"
    unfolding latest_join_def by (intro arg_cong [where f = concat] map_cong) auto
  also have "\<dots> = filter (is_latest rs) rs"
    by (rule concat_if_filter)
  finally show ?thesis .
qed

lemma latest_of_key:
  assumes d: "distinct (map col_id rs)" and k: "k \<in> set (map row_key rs)"
  shows "\<exists>r \<in> set rs. row_key r = k \<and> is_latest rs r
           \<and> filter (\<lambda>c. row_key c = k) (latest_join rs) = [r]"
proof -
  let ?G = "{r \<in> set rs. row_key r = k}"
  have fin: "finite (col_id ` ?G)" by simp
  have ne: "col_id ` ?G \<noteq> {}" using k by auto
  have "Max (col_id ` ?G) \<in> col_id ` ?G" using fin ne by (rule Max_in)
  then obtain r where r: "r \<in> set rs" "row_key r = k" "col_id r = Max (col_id ` ?G)" by auto
  have lat: "is_latest rs r"
    unfolding is_latest_def using r fin by auto
  have inj: "inj_on col_id (set rs)" using d by (simp add: distinct_map)
  have drs: "distinct rs" using d by (simp add: distinct_map)
  have "filter (\<lambda>c. row_key c = k) (latest_join rs) = filter (\<lambda>c. row_key c = k \<and> is_latest rs c) rs"
    by (simp add: latest_join_filter [OF d] conj_commute)
  also have "\<dots> = filter (\<lambda>c. c = r) rs"
  proof (rule filter_cong [OF refl])
    fix c assume c: "c \<in> set rs"
    show "(row_key c = k \<and> is_latest rs c) = (c = r)"
    proof
      assume a: "row_key c = k \<and> is_latest rs c"
      then have "col_id r \<le> col_id c" using r by (auto simp: is_latest_def)
      moreover have "col_id c \<le> col_id r" using lat a c r by (auto simp: is_latest_def)
      ultimately have "col_id c = col_id r" by simp
      then show "c = r" using inj c r(1) by (auto dest: inj_onD)
    next
      assume "c = r" then show "row_key c = k \<and> is_latest rs c" using r lat by simp
    qed
  qed
  also have "\<dots> = [r]" using drs r(1) by (rule filter_eq_distinct)
  finally show ?thesis using r lat by auto
qed


text \<open>
  C2. In every store whose ids are distinct (the primary key), for every key
  \<open>(agent_id, target_name)\<close> that occurs in the table, the result of
  \<open>get_latest_statuses\<close> holds exactly one record with that key, and it is the data of
  the row whose id is the largest among the rows of the key. The result holds no record
  of any other key.
\<close>

theorem latest_per_key:
  assumes "db_ok d"
  shows "(\<forall>k \<in> row_key ` set (checks d).
            \<exists>r \<in> set (checks d).
              row_key r = k
              \<and> (\<forall>r' \<in> set (checks d). row_key r' = k \<longrightarrow> col_id r' \<le> col_id r)
              \<and> filter (\<lambda>c. row_key c = k) (get_latest_statuses d) = [check_cols.truncate r])
         \<and> row_key ` set (get_latest_statuses d) = row_key ` set (checks d)"
proof -
  have dist: "distinct (map col_id (checks d))" using assms by (simp add: db_ok_def)
  have per_key: "\<exists>r \<in> set (checks d).
              row_key r = k
              \<and> (\<forall>r' \<in> set (checks d). row_key r' = k \<longrightarrow> col_id r' \<le> col_id r)
              \<and> filter (\<lambda>c. row_key c = k) (get_latest_statuses d) = [check_cols.truncate r]"
    if k: "k \<in> row_key ` set (checks d)" for k
  proof -
    from k have "k \<in> set (map row_key (checks d))" by simp
    from latest_of_key [OF dist this] obtain r where r: "r \<in> set (checks d)" "row_key r = k"
      "is_latest (checks d) r" "filter (\<lambda>c. row_key c = k) (latest_join (checks d)) = [r]"
      by blast
    have "filter (\<lambda>c. row_key c = k) (get_latest_statuses d)
          = map check_cols.truncate (filter (\<lambda>c. row_key c = k) (latest_join (checks d)))"
      by (simp add: get_latest_statuses_def filter_map comp_def row_key_truncate)
    then have "filter (\<lambda>c. row_key c = k) (get_latest_statuses d) = [check_cols.truncate r]"
      using r(4) by simp
    moreover have "\<forall>r' \<in> set (checks d). row_key r' = k \<longrightarrow> col_id r' \<le> col_id r"
      using r(2,3) by (simp add: is_latest_def)
    ultimately show ?thesis using r(1,2) by blast
  qed
  have keys: "row_key ` set (get_latest_statuses d) = row_key ` set (checks d)"
  proof
    have "set (latest_join (checks d)) \<subseteq> set (checks d)"
      by (simp add: latest_join_filter [OF dist])
    then show "row_key ` set (get_latest_statuses d) \<subseteq> row_key ` set (checks d)"
      by (auto simp: get_latest_statuses_def row_key_truncate)
  next
    show "row_key ` set (checks d) \<subseteq> row_key ` set (get_latest_statuses d)"
    proof
      fix k assume "k \<in> row_key ` set (checks d)"
      from per_key [OF this] obtain r :: row where
        "filter (\<lambda>c. row_key c = k) (get_latest_statuses d) = [check_cols.truncate r]" by blast
      then have "check_cols.truncate r \<in> set (filter (\<lambda>c. row_key c = k) (get_latest_statuses d))"
        by simp
      then show "k \<in> row_key ` set (get_latest_statuses d)" by auto
    qed
  qed
  show ?thesis using per_key keys by blast
qed

theorem latest_per_key_witness:
  "db_ok example_db
   \<and> row_key ` set (get_latest_statuses example_db) = {(Some ''a1'', Some ''web''), (Some ''a2'', Some ''web'')}"
proof -
  have ok: "db_ok example_db"
    by (simp add: db_ok_def example_db_def example_row_def)
  have "row_key ` set (checks example_db) = {(Some ''a1'', Some ''web''), (Some ''a2'', Some ''web'')}"
    by (auto simp: example_db_def example_row_def row_key_def)
  then show ?thesis using latest_per_key [OF ok] ok by simp
qed


subsection \<open>Recent window and retention\<close>







lemma db_ok_cleanup: "db_ok d \<Longrightarrow> db_ok (cleanup_old_records w h d)"
  by (auto simp: db_ok_def cleanup_old_records_def distinct_map_filter)


text \<open>
  C5. One sweep keeps exactly the rows whose timestamp is not smaller than the rendered
  cutoff \<open>now - retention_hours\<close>: a row is in the table afterwards if and only if it was
  there before and its timestamp is not below the cutoff, the removed rows are exactly the
  old ones (with their multiplicities), and the id counter is untouched. A second sweep at
  the same instant changes nothing. The comparison is the one the DELETE statement makes:
  on the texts, with NULL never smaller.
\<close>

theorem retention_sweep:
  "(\<forall>r. r \<in> set (checks (cleanup_old_records w retention_hours d)) \<longleftrightarrow>
          r \<in> set (checks d)
          \<and> \<not> (\<exists>t. col_timestamp r = Some t
                   \<and> t < isoformat w (utcnow w - retention_hours * 3600 * 1000000)))
   \<and> mset (checks d) =
       mset (checks (cleanup_old_records w retention_hours d))
       + mset (filter (\<lambda>r. \<exists>t. col_timestamp r = Some t
                   \<and> t < isoformat w (utcnow w - retention_hours * 3600 * 1000000)) (checks d))
   \<and> sqlite_sequence (cleanup_old_records w retention_hours d) = sqlite_sequence d
   \<and> cleanup_old_records w retention_hours (cleanup_old_records w retention_hours d)
       = cleanup_old_records w retention_hours d"
proof -
  let ?old = "\<lambda>r. \<exists>t. col_timestamp r = Some t
                   \<and> t < isoformat w (utcnow w - retention_hours * 3600 * 1000000)"
  have old: "sql_text_lt (col_timestamp r) (cutoff_iso w retention_hours) = ?old r" for r :: row
    by (simp add: sql_text_lt_def cutoff_iso_def split: option.splits)
  have rows: "checks (cleanup_old_records w retention_hours d) = filter (\<lambda>r. \<not> ?old r) (checks d)"
    by (simp add: cleanup_old_records_def old)
  have 1: "\<forall>r. r \<in> set (checks (cleanup_old_records w retention_hours d)) \<longleftrightarrow>
          r \<in> set (checks d) \<and> \<not> ?old r"
    unfolding rows by auto
  have 2: "mset (checks d) = mset (checks (cleanup_old_records w retention_hours d))
       + mset (filter ?old (checks d))"
    unfolding rows by (induction "checks d") auto
  have 3: "sqlite_sequence (cleanup_old_records w retention_hours d) = sqlite_sequence d"
    by (simp add: cleanup_old_records_def)
  have 4: "cleanup_old_records w retention_hours (cleanup_old_records w retention_hours d)
       = cleanup_old_records w retention_hours d"
    by (simp add: cleanup_old_records_def)
  show ?thesis using 1 2 3 4 by blast
qed

text \<open>On the small store, with the cutoff at 00:01:00, the rows 1 and 2 go and 4 and 5 stay.\<close>

theorem retention_sweep_example:
  "checks (cleanup_old_records example_world 24 example_db) =
     [example_row 4 ''a1'' ''web'' ''degraded'' ''2026-01-01T00:01:00+00:00'',
      example_row 5 ''a1'' ''web'' ''online'' ''2026-01-01T00:02:00+00:00'']"
  by (simp add: cleanup_old_records_def cutoff_iso_def sql_text_lt_def example_world_def
      example_db_def example_row_def)



text \<open>With the limit -1 every row of the key is returned.\<close>

lemma recent_negative_limit:
  "get_recent_history example_db ''a1'' ''web'' (- 1) =
       Inr [\<lparr>h_status = Some ''online'', h_latency_ms = SReal (FReal 12),
              h_timestamp = Some ''2026-01-01T00:00:00+00:00''\<rparr>,
            \<lparr>h_status = Some ''degraded'', h_latency_ms = SReal (FReal 12),
              h_timestamp = Some ''2026-01-01T00:01:00+00:00''\<rparr>,
            \<lparr>h_status = Some ''online'', h_latency_ms = SReal (FReal 12),
              h_timestamp = Some ''2026-01-01T00:02:00+00:00''\<rparr>]"
  by (simp add: get_recent_history_def int64_def recent_rows_def sql_limit_def example_db_def example_row_def)


section \<open>Properties of the ingestor\<close>




















lemma ingest_loop_counts:
  "\<exists>d'. ingest_loop w agent_id cs n d = (n + int (length (checks d')) - int (length (checks d)), d')
        \<and> take (length (checks d)) (checks d') = checks d \<and> length (checks d) \<le> length (checks d')
        \<and> length (checks d') \<le> length (checks d) + length cs"
proof (induction cs arbitrary: n d)
  case Nil
  show ?case by simp
next
  case (Cons c cs)
  show ?case
  proof (cases "ingest_record w agent_id c d")
    case (Inl e)
    from Cons.IH [of n d] obtain d' where
      "ingest_loop w agent_id cs n d = (n + int (length (checks d')) - int (length (checks d)), d')"
      "take (length (checks d)) (checks d') = checks d" "length (checks d) \<le> length (checks d')"
      "length (checks d') \<le> length (checks d) + length cs" by blast
    then show ?thesis using Inl by auto
  next
    case (Inr d1)
    then have d1: "\<exists>v. d1 = sql_insert v d"
      by (cases c) (auto simp: insert_check_def split: option.splits)
    then obtain v where v: "d1 = sql_insert v d" by blast
    have len: "length (checks d1) = length (checks d) + 1" using v by (simp add: sql_insert_def Let_def)
    from Cons.IH [of "n + 1" d1] obtain d' where d': "ingest_loop w agent_id cs (n + 1) d1
        = (n + 1 + int (length (checks d')) - int (length (checks d1)), d')"
       "take (length (checks d1)) (checks d') = checks d1" "length (checks d1) \<le> length (checks d')"
       "length (checks d') \<le> length (checks d1) + length cs" by blast
    have "take (length (checks d)) (take (length (checks d1)) (checks d')) = take (length (checks d)) (checks d1)"
      using d'(2) by simp
    then have "take (length (checks d)) (checks d') = checks d"
      using len v by (simp add: min_def sql_insert_def Let_def)
    then show ?thesis using Inr d' len by simp
  qed
qed


lemma key_accepted:
  assumes "x_api_key req = Some k" and "k \<noteq> []" and "dict_get app_config ''api_key'' PNone = PStr k"
  shows "\<not> key_rejected app_config (x_api_key req)"
  using assms by (simp add: key_rejected_def)


lemmas ingest_defs = api_ingest_def ingest_checks_def key_rejected_def example_config_def
  example_request_def example_payload_def example_record_def dict_get_def insert_check_def
  bound_params_def target_param_def record_target_def record_result_def ok_received_def
  unauthorized_def invalid_payload_def response_of_def store_after_def

lemma example_batch_stored:
  "response_of (api_ingest example_world example_config (example_request (example_payload example_batch))
      example_db)
     = Some (Response 200 (PDict [(''status'', PStr ''ok''), (''received'', PInt 2)]))
   \<and> map col_target_name (checks (store_after example_db
        (api_ingest example_world example_config (example_request (example_payload example_batch))
           example_db)))
     = [Some ''web'', Some ''web'', Some ''web'', Some ''web'', Some ''web'', Some ''db'']
   \<and> map col_status (checks (store_after example_db
        (api_ingest example_world example_config (example_request (example_payload example_batch))
           example_db)))
     = [Some ''online'', Some ''offline'', Some ''degraded'', Some ''online'', Some ''online'',
        Some ''offline'']"
  by (simp add: ingest_defs example_batch_def example_world_def example_db_def example_row_def
      insert_cols_def details_param_def sql_insert_def check_cols.extend_def row.fields_def)



text \<open>
  C7, as amended. A request whose \<^verbatim>\<open>X-API-Key\<close> header is absent, empty or different from
  the configured secret gets 401 and the store is as before. A request with an accepted
  key (present, not empty, equal to the secret) whose body is empty (None, \<open>{}\<close>, any
  falsy value) or is an object without a member \<open>checks\<close> gets 400 and the store is as
  before. A request with an accepted key whose body is an object with a list \<open>checks\<close>
  gets 200 with \<open>{status: ok, received: N}\<close>, \<open>N\<close> being the number of rows added to the
  store, at most one for each record, and the rows that were there are untouched.
\<close>

theorem ingest_validation:
  "((x_api_key req = None \<or> x_api_key req = Some []
       \<or> (\<exists>k. x_api_key req = Some k \<and> PStr k \<noteq> dict_get app_config ''api_key'' PNone))
      \<longrightarrow> api_ingest w app_config req d
            = Inr (Response 401 (PDict [(''error'', PStr ''Unauthorized'')]), d))
   \<and> ((\<exists>k. x_api_key req = Some k \<and> k \<noteq> [] \<and> dict_get app_config ''api_key'' PNone = PStr k)
        \<and> (\<not> truthy (get_json req) \<or> (\<exists>p. get_json req = PDict p \<and> map_of p ''checks'' = None))
      \<longrightarrow> api_ingest w app_config req d
            = Inr (Response 400 (PDict [(''error'', PStr ''Invalid payload'')]), d))
   \<and> ((\<exists>k. x_api_key req = Some k \<and> k \<noteq> [] \<and> dict_get app_config ''api_key'' PNone = PStr k)
        \<and> (\<exists>p cs. get_json req = PDict p \<and> map_of p ''checks'' = Some (PList cs))
      \<longrightarrow> (\<exists>d' cs. api_ingest w app_config req d
                   = Inr (Response 200
                            (PDict [(''status'', PStr ''ok''),
                                    (''received'', PInt (int (length (checks d')) - int (length (checks d))))]),
                          d')
               \<and> py_get (get_json req) ''checks'' PNone = Inr (PList cs)
               \<and> take (length (checks d)) (checks d') = checks d
               \<and> length (checks d) \<le> length (checks d')
               \<and> length (checks d') \<le> length (checks d) + length cs))"
proof (intro conjI impI)
  assume "x_api_key req = None \<or> x_api_key req = Some []
       \<or> (\<exists>k. x_api_key req = Some k \<and> PStr k \<noteq> dict_get app_config ''api_key'' PNone)"
  then have "key_rejected app_config (x_api_key req)"
    by (auto simp: key_rejected_def)
  then show "api_ingest w app_config req d
            = Inr (Response 401 (PDict [(''error'', PStr ''Unauthorized'')]), d)"
    by (simp add: api_ingest_def unauthorized_def)
next
  assume a: "(\<exists>k. x_api_key req = Some k \<and> k \<noteq> [] \<and> dict_get app_config ''api_key'' PNone = PStr k)
        \<and> (\<not> truthy (get_json req) \<or> (\<exists>p. get_json req = PDict p \<and> map_of p ''checks'' = None))"
  then obtain k where "x_api_key req = Some k" "k \<noteq> []" "dict_get app_config ''api_key'' PNone = PStr k"
    by blast
  then have acc: "\<not> key_rejected app_config (x_api_key req)" by (rule key_accepted)
  show "api_ingest w app_config req d
            = Inr (Response 400 (PDict [(''error'', PStr ''Invalid payload'')]), d)"
  proof (cases "truthy (get_json req)")
    case False
    then show ?thesis using acc by (simp add: api_ingest_def invalid_payload_def)
  next
    case True
    with a obtain p where "get_json req = PDict p" "map_of p ''checks'' = None" by blast
    then show ?thesis using acc True by (simp add: api_ingest_def invalid_payload_def)
  qed
next
  assume a: "(\<exists>k. x_api_key req = Some k \<and> k \<noteq> [] \<and> dict_get app_config ''api_key'' PNone = PStr k)
        \<and> (\<exists>p cs. get_json req = PDict p \<and> map_of p ''checks'' = Some (PList cs))"
  then obtain k where "x_api_key req = Some k" "k \<noteq> []" "dict_get app_config ''api_key'' PNone = PStr k"
    by blast
  then have acc: "\<not> key_rejected app_config (x_api_key req)" by (rule key_accepted)
  from a obtain p cs where p: "get_json req = PDict p" "map_of p ''checks'' = Some (PList cs)" by blast
  have ne: "p \<noteq> []" using p(2) by auto
  let ?a = "dict_get p ''agent_id'' (PStr ''unknown'')"
  from ingest_loop_counts [of w ?a cs 0 d] obtain d' where
    d': "ingest_loop w ?a cs 0 d = (0 + int (length (checks d')) - int (length (checks d)), d')"
     "take (length (checks d)) (checks d') = checks d" "length (checks d) \<le> length (checks d')"
     "length (checks d') \<le> length (checks d) + length cs" by blast
  have "ingest_checks w (PDict p) d = Inr (ok_received (int (length (checks d')) - int (length (checks d))), d')"
    using p(2) d'(1) by (simp add: ingest_checks_def dict_get_def)
  then have r: "api_ingest w app_config req d
                   = Inr (Response 200
                            (PDict [(''status'', PStr ''ok''),
                                    (''received'', PInt (int (length (checks d')) - int (length (checks d))))]),
                          d')"
    using acc p ne by (simp add: api_ingest_def ok_received_def)
  have g: "py_get (get_json req) ''checks'' PNone = Inr (PList cs)"
    using p by (simp add: dict_get_def)
  show "\<exists>d' cs. api_ingest w app_config req d
                   = Inr (Response 200
                            (PDict [(''status'', PStr ''ok''),
                                    (''received'', PInt (int (length (checks d')) - int (length (checks d))))]),
                          d')
               \<and> py_get (get_json req) ''checks'' PNone = Inr (PList cs)
               \<and> take (length (checks d)) (checks d') = checks d
               \<and> length (checks d) \<le> length (checks d')
               \<and> length (checks d') \<le> length (checks d) + length cs"
    using r g d'(2,3,4) by blast
qed

theorem ingest_validation_witness:
  "api_ingest example_world example_config
       \<lparr>x_api_key = None, get_json = example_payload example_batch\<rparr> example_db
     = Inr (Response 401 (PDict [(''error'', PStr ''Unauthorized'')]), example_db)
   \<and> api_ingest example_world example_config
       \<lparr>x_api_key = Some ''wrong'', get_json = example_payload example_batch\<rparr> example_db
     = Inr (Response 401 (PDict [(''error'', PStr ''Unauthorized'')]), example_db)
   \<and> api_ingest example_world [(''api_key'', PStr [])]
       \<lparr>x_api_key = Some [], get_json = example_payload example_batch\<rparr> example_db
     = Inr (Response 401 (PDict [(''error'', PStr ''Unauthorized'')]), example_db)
   \<and> api_ingest example_world example_config (example_request (PDict [(''agent_id'', PStr ''a1'')]))
       example_db
     = Inr (Response 400 (PDict [(''error'', PStr ''Invalid payload'')]), example_db)
   \<and> api_ingest example_world example_config (example_request PNone) example_db
     = Inr (Response 400 (PDict [(''error'', PStr ''Invalid payload'')]), example_db)
   \<and> (\<exists>d'. api_ingest example_world example_config (example_request (example_payload example_batch))
              example_db
            = Inr (Response 200 (PDict [(''status'', PStr ''ok''), (''received'', PInt 2)]), d')
          \<and> length (checks d') = 6)"
proof -
  let ?r1 = "\<lparr>x_api_key = None, get_json = example_payload example_batch\<rparr>"
  let ?r2 = "\<lparr>x_api_key = Some ''wrong'', get_json = example_payload example_batch\<rparr>"
  let ?r3 = "\<lparr>x_api_key = Some [], get_json = example_payload example_batch\<rparr>"
  let ?r4 = "example_request (PDict [(''agent_id'', PStr ''a1'')])"
  let ?r5 = "example_request PNone"
  let ?r6 = "example_request (example_payload example_batch)"
  have acc: "\<exists>k. x_api_key (example_request body) = Some k \<and> k \<noteq> []
      \<and> dict_get example_config ''api_key'' PNone = PStr k" for body
    by (simp add: example_request_def example_config_def dict_get_def)
  have 1: "api_ingest example_world example_config ?r1 example_db
     = Inr (Response 401 (PDict [(''error'', PStr ''Unauthorized'')]), example_db)"
    using ingest_validation [of ?r1 example_config example_world example_db] by simp
  have "PStr ''wrong'' \<noteq> dict_get example_config ''api_key'' PNone"
    by (simp add: example_config_def dict_get_def)
  then have 2: "api_ingest example_world example_config ?r2 example_db
     = Inr (Response 401 (PDict [(''error'', PStr ''Unauthorized'')]), example_db)"
    using ingest_validation [of ?r2 example_config example_world example_db] by simp
  have 3: "api_ingest example_world [(''api_key'', PStr [])] ?r3 example_db
     = Inr (Response 401 (PDict [(''error'', PStr ''Unauthorized'')]), example_db)"
    using ingest_validation [of ?r3 "[(''api_key'', PStr [])]" example_world example_db] by simp
  have "get_json ?r4 = PDict [(''agent_id'', PStr ''a1'')] \<and> map_of [(''agent_id'', PStr ''a1'')] ''checks'' = None"
    by (simp add: example_request_def)
  then have 4: "api_ingest example_world example_config ?r4 example_db
     = Inr (Response 400 (PDict [(''error'', PStr ''Invalid payload'')]), example_db)"
    using ingest_validation [of ?r4 example_config example_world example_db] acc [of "PDict [(''agent_id'', PStr ''a1'')]"]
    by blast
  have "\<not> truthy (get_json ?r5)" by (simp add: example_request_def)
  then have 5: "api_ingest example_world example_config ?r5 example_db
     = Inr (Response 400 (PDict [(''error'', PStr ''Invalid payload'')]), example_db)"
    using ingest_validation [of ?r5 example_config example_world example_db] acc [of PNone]
    by blast
  have "\<exists>p cs. get_json ?r6 = PDict p \<and> map_of p ''checks'' = Some (PList cs)"
    by (simp add: example_request_def example_payload_def)
  then obtain d' where d': "api_ingest example_world example_config ?r6 example_db
                   = Inr (Response 200
                            (PDict [(''status'', PStr ''ok''),
                                    (''received'', PInt (int (length (checks d')) - int (length (checks example_db))))]),
                          d')"
    using ingest_validation [of ?r6 example_config example_world example_db] acc [of "example_payload example_batch"]
    by blast
  then have "response_of (api_ingest example_world example_config ?r6 example_db)
      = Some (Response 200 (PDict [(''status'', PStr ''ok''),
                (''received'', PInt (int (length (checks d')) - int (length (checks example_db))))]))"
    by (simp add: response_of_def)
  then have "int (length (checks d')) - int (length (checks example_db)) = 2"
    using example_batch_stored by simp
  moreover have "length (checks example_db) = 4" by (simp add: example_db_def)
  ultimately have "int (length (checks d')) - int (length (checks example_db)) = 2 \<and> length (checks d') = 6"
    by simp
  then have 6: "\<exists>d'. api_ingest example_world example_config ?r6 example_db
            = Inr (Response 200 (PDict [(''status'', PStr ''ok''), (''received'', PInt 2)]), d')
          \<and> length (checks d') = 6"
    using d' by auto
  show ?thesis using 1 2 3 4 5 6 by blast
qed

text \<open>
  C7 as stated fails: a body whose \<open>checks\<close> is not a list is not rejected with 400. The
  text \<^verbatim>\<open>"ab"\<close> is iterated character by character, each character is skipped as a
  malformed record, and the response is 200 with \<open>received = 0\<close>; the number 5 makes the
  \<^verbatim>\<open>for\<close> statement raise TypeError, which leaves the view function (a response 500).
\<close>

theorem ingest_checks_not_a_list:
  "api_ingest example_world example_config (example_request (PDict [(''checks'', PStr ''ab'')])) example_db
     = Inr (Response 200 (PDict [(''status'', PStr ''ok''), (''received'', PInt 0)]), example_db)
   \<and> api_ingest example_world example_config (example_request (PDict [(''checks'', PInt 5)])) example_db
     = Inl (TypeError ''object is not iterable'')"
  by (simp add: api_ingest_def ingest_checks_def key_rejected_def example_config_def example_request_def
      dict_get_def ok_received_def)

section \<open>Properties of the check pipeline\<close>

lemma ping_host_success: "ping_host net host = (True, latency, err, det) \<Longrightarrow> err = PNone"
  by (auto simp: ping_host_def split: ping_io.splits sum.splits if_splits)

lemma check_http_success: "check_http a net url = (True, latency, err, det) \<Longrightarrow> err = PNone"
  by (auto simp: check_http_def Let_def split: http_io.splits if_splits)

lemma check_tcp_success: "check_tcp net host port = (True, latency, err, det) \<Longrightarrow> err = PNone"
  by (auto simp: check_tcp_def split: tcp_io.splits if_splits)

lemma check_dns_success: "check_dns a net host srv = Inr (True, latency, err, det) \<Longrightarrow> err = PNone"
  by (auto simp: check_dns_def split: dns_io.splits dns_fallback.splits if_splits)

lemma app_probe_success:
  "app_probe net ty host t = Inr (True, latency, err, det) \<Longrightarrow> err = PNone"
  by (auto simp: app_probe_def split: if_splits
      dest: ping_host_success check_http_success check_tcp_success check_dns_success)

lemma agent_probe_success:
  "agent_probe net ty host t = Inr (True, latency, err, det) \<Longrightarrow> err = PNone"
  by (auto simp: agent_probe_def split: if_splits
      dest: ping_host_success check_http_success check_tcp_success check_dns_success)

lemma app_status_cases:
  "(success \<and> float_gt latency 500 \<longrightarrow> app_status success latency = ''degraded'')
   \<and> (success \<and> float_le latency 500 \<longrightarrow> app_status success latency = ''online'')
   \<and> (\<not> success \<longrightarrow> app_status success latency = ''offline'')"
  by (cases latency) (auto simp: app_status_def)

lemma agent_status_cases:
  "(success \<and> float_gt latency 500 \<longrightarrow> agent_status success latency = ''degraded'')
   \<and> (success \<and> float_le latency 500 \<longrightarrow> agent_status success latency = ''online'')
   \<and> (\<not> success \<longrightarrow> agent_status success latency = ''offline'')"
  by (cases latency) (auto simp: agent_status_def)

lemma app_status_range: "app_status success latency \<in> {''online'', ''degraded'', ''offline''}"
  by (simp add: app_status_def)

lemma agent_status_range: "agent_status success latency \<in> {''online'', ''degraded'', ''offline''}"
  by (simp add: agent_status_def)

lemma app_status_up: "app_status success latency \<noteq> ''offline'' \<Longrightarrow> success"
  by (simp add: app_status_def split: if_splits)

lemma agent_status_up: "agent_status success latency \<noteq> ''offline'' \<Longrightarrow> success"
  by (simp add: agent_status_def split: if_splits)

lemma check_target_Inr:
  assumes "check_target w net tg = Inr r"
  obtains t host name success latency err det where
    "tg = PDict t" "map_of t ''host'' = Some host" "map_of t ''name'' = Some name"
    "app_probe net (dict_get t ''type'' (PStr ''ping'')) host t = Inr (success, latency, err, det)"
    "r = \<lparr>target_name = name, status = PStr (app_status success latency),
          latency_ms = PFloat (py_round2 latency), timestamp = PStr (local_now_iso w),
          error = err, details = det\<rparr>"
  using assms
  by (cases tg) (auto simp: Let_def split: option.splits sum.splits prod.splits)

lemma run_target_Inr:
  assumes "run_target w net tg = Inr out"
  obtains t success latency err det where
    "tg = PDict t"
    "agent_probe net (dict_get t ''type'' (PStr ''ping'')) (dict_get t ''host'' PNone) t
       = Inr (success, latency, err, det)"
    "out = PDict [(''target_name'', dict_get t ''name'' PNone), (''host'', dict_get t ''host'' PNone),
                  (''type'', dict_get t ''type'' (PStr ''ping'')),
                  (''status'', PStr (agent_status success latency)),
                  (''latency_ms'', PFloat (py_round2 latency)),
                  (''timestamp'', PStr (isoformat w (utcnow w))),
                  (''error'', err), (''details'', det)]"
  using assms
  by (cases tg) (auto simp: Let_def split: option.splits sum.splits prod.splits)


text \<open>
  The field \<open>latency_ms\<close> holds the latency rounded to two decimals: a rounded value above
  500 comes from a latency above 500, and a latency of at most 500 is rounded to at most
  500. The converse fails between 500 and 500.005.
\<close>

lemma round_half_even_bounds:
  "of_int (round_half_even y) \<le> y + 1 / 2 \<and> y - 1 / 2 \<le> of_int (round_half_even y)"
proof -
  have f: "of_int \<lfloor>y\<rfloor> \<le> y" "y < of_int \<lfloor>y\<rfloor> + 1" by linarith+
  consider (lo) "y - of_int \<lfloor>y\<rfloor> < 1 / 2" | (hi) "1 / 2 < y - of_int \<lfloor>y\<rfloor>"
    | (tie) "y - of_int \<lfloor>y\<rfloor> = 1 / 2" by linarith
  then show ?thesis
  proof cases
    case lo
    then have "round_half_even y = \<lfloor>y\<rfloor>" by (simp add: round_half_even_def Let_def)
    then have "of_int (round_half_even y) = (of_int \<lfloor>y\<rfloor> :: rat)" by simp
    then show ?thesis using f lo by (intro conjI; linarith)
  next
    case hi
    then have "round_half_even y = \<lfloor>y\<rfloor> + 1" by (simp add: round_half_even_def Let_def)
    then have "of_int (round_half_even y) = (of_int \<lfloor>y\<rfloor> :: rat) + 1" by simp
    then show ?thesis using f hi by (intro conjI; linarith)
  next
    case tie
    then have "round_half_even y = \<lfloor>y\<rfloor> \<or> round_half_even y = \<lfloor>y\<rfloor> + 1"
      by (simp add: round_half_even_def Let_def)
    then have "of_int (round_half_even y) = (of_int \<lfloor>y\<rfloor> :: rat)
        \<or> of_int (round_half_even y) = (of_int \<lfloor>y\<rfloor> :: rat) + 1" by auto
    then show ?thesis using f tie by (elim disjE; intro conjI; linarith)
  qed
qed

lemma rounded_above_500:
  assumes "float_gt (py_round2 latency) 500"
  shows "float_gt latency 500"
proof (cases latency)
  case (FReal x)
  let ?n = "round_half_even (x * 100)"
  from assms FReal have "500 < (of_int ?n :: rat) / 100" by simp
  then have "(50000 :: rat) < of_int ?n" by simp
  then have "(50000 :: int) < ?n" by linarith
  then have "(50001 :: rat) \<le> of_int ?n" by linarith
  moreover have "of_int ?n \<le> x * 100 + 1 / 2" using round_half_even_bounds [of "x * 100"] by simp
  ultimately have "500 < x" by linarith
  then show ?thesis using FReal by simp
qed (use assms in simp_all)

lemma rounded_not_above_500:
  assumes "float_le latency 500"
  shows "float_le (py_round2 latency) 500"
proof (cases latency)
  case (FReal x)
  let ?n = "round_half_even (x * 100)"
  have x: "x * 100 \<le> 50000" using assms FReal by simp
  have "?n \<le> 50000"
  proof (rule ccontr)
    assume "\<not> ?n \<le> 50000"
    then have "(50001 :: rat) \<le> of_int ?n" by linarith
    then have "float_gt (py_round2 latency) 500" using FReal by simp
    then have "float_gt latency 500" by (rule rounded_above_500)
    then show False using assms FReal by simp
  qed
  then have "(of_int ?n :: rat) \<le> 50000" by linarith
  then show ?thesis using FReal by simp
qed (use assms in simp_all)

lemma rounded_500: "py_round2 (FReal (500004 / 1000)) = FReal 500"
proof -
  have "\<lfloor>250002 / 5 :: rat\<rfloor> = 50000" by (simp add: floor_eq_iff)
  then have "round_half_even (250002 / 5) = 50000" by (simp add: round_half_even_def Let_def)
  then show ?thesis by simp
qed

text \<open>
  C1, as amended. The status of an outcome is derived from the tuple
  \<open>(success, latency, ...)\<close> that the probe of the target returned, in the same way for
  every protocol: success with a latency above 500 gives degraded, success with a latency
  of at most 500 gives online, no success gives offline. The latency compared is the one
  the probe measured; the field \<open>latency_ms\<close> of the outcome is that value rounded to two
  decimals, and success with \<open>latency_ms > 500\<close> gives degraded. This holds for
  \<^verbatim>\<open>check_target\<close> of the service and for \<^verbatim>\<open>run_target\<close> of the agent; the outcome that
  \<^verbatim>\<open>run_checks\<close> makes of a raised exception is offline, and otherwise \<^verbatim>\<open>run_checks\<close>
  keeps the status.
\<close>

theorem status_derivation:
  "(\<forall>r. check_target w net tg = Inr r \<longrightarrow>
      (\<exists>t host success latency err det.
         tg = PDict t \<and> map_of t ''host'' = Some host
         \<and> app_probe net (dict_get t ''type'' (PStr ''ping'')) host t = Inr (success, latency, err, det)
         \<and> latency_ms r = PFloat (py_round2 latency)
         \<and> (success \<and> float_gt (py_round2 latency) 500 \<longrightarrow> status r = PStr ''degraded'')
         \<and> (success \<and> float_gt latency 500 \<longrightarrow> status r = PStr ''degraded'')
         \<and> (success \<and> float_le latency 500 \<longrightarrow> status r = PStr ''online'')
         \<and> (\<not> success \<longrightarrow> status r = PStr ''offline'')))
   \<and> (\<forall>out. run_target w net tg = Inr out \<longrightarrow>
      (\<exists>t kv success latency err det.
         tg = PDict t \<and> out = PDict kv
         \<and> agent_probe net (dict_get t ''type'' (PStr ''ping'')) (dict_get t ''host'' PNone) t
             = Inr (success, latency, err, det)
         \<and> map_of kv ''latency_ms'' = Some (PFloat (py_round2 latency))
         \<and> (success \<and> float_gt (py_round2 latency) 500 \<longrightarrow> map_of kv ''status'' = Some (PStr ''degraded''))
         \<and> (success \<and> float_gt latency 500 \<longrightarrow> map_of kv ''status'' = Some (PStr ''degraded''))
         \<and> (success \<and> float_le latency 500 \<longrightarrow> map_of kv ''status'' = Some (PStr ''online''))
         \<and> (\<not> success \<longrightarrow> map_of kv ''status'' = Some (PStr ''offline''))))
   \<and> (\<forall>e r. cycle_result w tg (Inl e) = Inr r \<longrightarrow> status r = PStr ''offline'')
   \<and> (\<forall>r0 r. cycle_result w tg (Inr r0) = Inr r \<longrightarrow> status r = status r0 \<and> latency_ms r = latency_ms r0)"
proof (intro conjI allI impI)
  fix r assume "check_target w net tg = Inr r"
  then obtain t host name success latency err det where
    h: "tg = PDict t" "map_of t ''host'' = Some host"
    "app_probe net (dict_get t ''type'' (PStr ''ping'')) host t = Inr (success, latency, err, det)"
    "r = \<lparr>target_name = name, status = PStr (app_status success latency),
          latency_ms = PFloat (py_round2 latency), timestamp = PStr (local_now_iso w),
          error = err, details = det\<rparr>"
    by (rule check_target_Inr)
  have st: "status r = PStr (app_status success latency)" using h(4) by simp
  have lm: "latency_ms r = PFloat (py_round2 latency)" using h(4) by simp
  have c: "(success \<and> float_gt latency 500 \<longrightarrow> app_status success latency = ''degraded'')
   \<and> (success \<and> float_le latency 500 \<longrightarrow> app_status success latency = ''online'')
   \<and> (\<not> success \<longrightarrow> app_status success latency = ''offline'')"
    by (rule app_status_cases)
  have up: "success \<and> float_gt (py_round2 latency) 500 \<longrightarrow> app_status success latency = ''degraded''"
    using c rounded_above_500 [of latency] by blast
  have "tg = PDict t \<and> map_of t ''host'' = Some host
         \<and> app_probe net (dict_get t ''type'' (PStr ''ping'')) host t = Inr (success, latency, err, det)
         \<and> latency_ms r = PFloat (py_round2 latency)
         \<and> (success \<and> float_gt (py_round2 latency) 500 \<longrightarrow> status r = PStr ''degraded'')
         \<and> (success \<and> float_gt latency 500 \<longrightarrow> status r = PStr ''degraded'')
         \<and> (success \<and> float_le latency 500 \<longrightarrow> status r = PStr ''online'')
         \<and> (\<not> success \<longrightarrow> status r = PStr ''offline'')"
    using h(1,2,3) lm c up unfolding st by simp
  then show "\<exists>t host success latency err det.
         tg = PDict t \<and> map_of t ''host'' = Some host
         \<and> app_probe net (dict_get t ''type'' (PStr ''ping'')) host t = Inr (success, latency, err, det)
         \<and> latency_ms r = PFloat (py_round2 latency)
         \<and> (success \<and> float_gt (py_round2 latency) 500 \<longrightarrow> status r = PStr ''degraded'')
         \<and> (success \<and> float_gt latency 500 \<longrightarrow> status r = PStr ''degraded'')
         \<and> (success \<and> float_le latency 500 \<longrightarrow> status r = PStr ''online'')
         \<and> (\<not> success \<longrightarrow> status r = PStr ''offline'')"
    by (intro exI)
next
  fix out assume "run_target w net tg = Inr out"
  then obtain t success latency err det where
    h: "tg = PDict t"
    "agent_probe net (dict_get t ''type'' (PStr ''ping'')) (dict_get t ''host'' PNone) t
       = Inr (success, latency, err, det)"
    "out = PDict [(''target_name'', dict_get t ''name'' PNone), (''host'', dict_get t ''host'' PNone),
                  (''type'', dict_get t ''type'' (PStr ''ping'')),
                  (''status'', PStr (agent_status success latency)),
                  (''latency_ms'', PFloat (py_round2 latency)),
                  (''timestamp'', PStr (isoformat w (utcnow w))),
                  (''error'', err), (''details'', det)]"
    by (rule run_target_Inr)
  let ?kv = "[(''target_name'', dict_get t ''name'' PNone), (''host'', dict_get t ''host'' PNone),
                  (''type'', dict_get t ''type'' (PStr ''ping'')),
                  (''status'', PStr (agent_status success latency)),
                  (''latency_ms'', PFloat (py_round2 latency)),
                  (''timestamp'', PStr (isoformat w (utcnow w))),
                  (''error'', err), (''details'', det)]"
  have st: "map_of ?kv ''status'' = Some (PStr (agent_status success latency))" by simp
  have lm: "map_of ?kv ''latency_ms'' = Some (PFloat (py_round2 latency))" by simp
  have c: "(success \<and> float_gt latency 500 \<longrightarrow> agent_status success latency = ''degraded'')
   \<and> (success \<and> float_le latency 500 \<longrightarrow> agent_status success latency = ''online'')
   \<and> (\<not> success \<longrightarrow> agent_status success latency = ''offline'')"
    by (rule agent_status_cases)
  have up: "success \<and> float_gt (py_round2 latency) 500 \<longrightarrow> agent_status success latency = ''degraded''"
    using c rounded_above_500 [of latency] by blast
  have "tg = PDict t \<and> out = PDict ?kv
         \<and> agent_probe net (dict_get t ''type'' (PStr ''ping'')) (dict_get t ''host'' PNone) t
             = Inr (success, latency, err, det)
         \<and> map_of ?kv ''latency_ms'' = Some (PFloat (py_round2 latency))
         \<and> (success \<and> float_gt (py_round2 latency) 500 \<longrightarrow> map_of ?kv ''status'' = Some (PStr ''degraded''))
         \<and> (success \<and> float_gt latency 500 \<longrightarrow> map_of ?kv ''status'' = Some (PStr ''degraded''))
         \<and> (success \<and> float_le latency 500 \<longrightarrow> map_of ?kv ''status'' = Some (PStr ''online''))
         \<and> (\<not> success \<longrightarrow> map_of ?kv ''status'' = Some (PStr ''offline''))"
    using h c up unfolding st lm by simp
  then show "\<exists>t kv success latency err det.
         tg = PDict t \<and> out = PDict kv
         \<and> agent_probe net (dict_get t ''type'' (PStr ''ping'')) (dict_get t ''host'' PNone) t
             = Inr (success, latency, err, det)
         \<and> map_of kv ''latency_ms'' = Some (PFloat (py_round2 latency))
         \<and> (success \<and> float_gt (py_round2 latency) 500 \<longrightarrow> map_of kv ''status'' = Some (PStr ''degraded''))
         \<and> (success \<and> float_gt latency 500 \<longrightarrow> map_of kv ''status'' = Some (PStr ''degraded''))
         \<and> (success \<and> float_le latency 500 \<longrightarrow> map_of kv ''status'' = Some (PStr ''online''))
         \<and> (\<not> success \<longrightarrow> map_of kv ''status'' = Some (PStr ''offline''))"
    by (intro exI)
next
  fix e r assume "cycle_result w tg (Inl e) = Inr r"
  then show "status r = PStr ''offline''"
    by (auto simp: cycle_result_def split: sum.splits)
next
  fix r0 r assume "cycle_result w tg (Inr r0) = Inr r"
  then show "status r = status r0"
    by (auto simp: cycle_result_def)
next
  fix r0 r assume "cycle_result w tg (Inr r0) = Inr r"
  then show "latency_ms r = latency_ms r0"
    by (auto simp: cycle_result_def)
qed


lemma run_checks_loop_outs:
  assumes "\<forall>(t, res) \<in> set pairs. \<forall>r. cycle_result w t res = Inr r \<longrightarrow> P r"
    and "\<forall>r \<in> set outs. P r"
  shows "\<forall>r \<in> set (fst (snd (run_checks_loop w config a pairs outs d))). P r"
  using assms
proof (induction pairs arbitrary: outs d)
  case Nil
  then show ?case by simp
next
  case (Cons p pairs)
  obtain t res where p: "p = (t, res)" by (cases p)
  show ?case
  proof (cases "cycle_result w t res")
    case (Inl e)
    then show ?thesis using Cons.prems(2) p by simp
  next
    case (Inr result)
    have Pr: "P result" using Cons.prems(1) p Inr by auto
    let ?d' = "case insert_check w a t result d of Inl e \<Rightarrow> d | Inr d1 \<Rightarrow> d1"
    have outs': "\<forall>r \<in> set (outs @ [result]). P r" using Cons.prems(2) Pr by simp
    show ?thesis
    proof (cases "cache_update config result")
      case None
      have "\<forall>r \<in> set (fst (snd (run_checks_loop w config a pairs (outs @ [result]) ?d'))). P r"
        using Cons.prems(1) outs' by (intro Cons.IH) auto
      then show ?thesis using p Inr None by (simp add: Let_def)
    next
      case (Some e)
      then show ?thesis using p Inr outs' by (simp add: Let_def)
    qed
  qed
qed

lemma zip_map_snd: "(t, res) \<in> set (zip ts (map f ts)) \<Longrightarrow> res = f t"
  by (induction ts) auto

lemma run_checks_outs:
  assumes "\<And>t r. cycle_result w t (check_target w net t) = Inr r \<Longrightarrow> P r"
  shows "\<forall>r \<in> set (fst (snd (run_checks w net config d))). P r"
proof (cases "cycle_targets (dict_get config ''targets'' (PList []))")
  case (Inl e)
  then show ?thesis by (simp add: run_checks_def)
next
  case (Inr targets)
  have "\<forall>(t, res) \<in> set (zip targets (map (check_target w net) targets)).
          \<forall>r. cycle_result w t res = Inr r \<longrightarrow> P r"
    using assms by (auto dest!: zip_map_snd)
  then have "\<forall>r \<in> set (fst (snd (run_checks_loop w config (dict_get config ''agent_id'' (PStr ''local''))
      (zip targets (map (check_target w net) targets)) [] d))). P r"
    by (intro run_checks_loop_outs) simp_all
  then show ?thesis using Inr by (simp add: run_checks_def)
qed

lemma await_all_outs:
  "await_all futs acc = Inr outs \<Longrightarrow> out \<in> set outs \<Longrightarrow> out \<in> set acc \<or> Inr out \<in> set futs"
proof (induction futs acc rule: await_all.induct)
  case (1 results)
  then show ?case by simp
next
  case (2 e futs results)
  then show ?case by simp
next
  case (3 r futs results)
  then show ?case by auto
qed

lemma run_cycle_outs:
  assumes "run_cycle w net completed cfg = Some (Inr outs)" and "out \<in> set outs"
  shows "\<exists>t. run_target w net t = Inr out"
proof -
  from assms(1) obtain targets where
    a: "await_all (map (\<lambda>i. run_target w net (targets ! i)) (filter (\<lambda>i. i < length targets) completed)) [] = Inr outs"
    by (auto simp: run_cycle_def split: sum.splits if_splits)
  from await_all_outs [OF a assms(2)] show ?thesis by auto
qed

lemma check_target_error:
  assumes "check_target w net tg = Inr r"
  shows "error_only_offline (status r) (error r)"
proof -
  from assms obtain t host name success latency err det where
    h: "app_probe net (dict_get t ''type'' (PStr ''ping'')) host t = Inr (success, latency, err, det)"
    "r = \<lparr>target_name = name, status = PStr (app_status success latency),
          latency_ms = PFloat (py_round2 latency), timestamp = PStr (local_now_iso w),
          error = err, details = det\<rparr>"
    by (rule check_target_Inr)
  show ?thesis
  proof (cases success)
    case True
    then have "err = PNone" using h(1) by (auto dest: app_probe_success)
    then show ?thesis using h(2) by (simp add: error_only_offline_def)
  next
    case False
    then show ?thesis using h(2) by (simp add: error_only_offline_def app_status_def)
  qed
qed

lemma cycle_result_error:
  assumes "cycle_result w t (check_target w net t) = Inr r"
  shows "error_only_offline (status r) (error r)"
proof (cases "check_target w net t")
  case (Inl e)
  then show ?thesis using assms
    by (auto simp: cycle_result_def error_only_offline_def split: sum.splits)
next
  case (Inr r0)
  then have "status r = status r0" "error r = error r0" using assms
    by (auto simp: cycle_result_def)
  then show ?thesis using check_target_error [OF Inr] by simp
qed

lemma run_target_error:
  assumes "run_target w net tg = Inr out"
  shows "\<exists>kv st err. out = PDict kv \<and> map_of kv ''status'' = Some st \<and> map_of kv ''error'' = Some err
           \<and> error_only_offline st err"
proof -
  from assms obtain t success latency err det where
    h: "agent_probe net (dict_get t ''type'' (PStr ''ping'')) (dict_get t ''host'' PNone) t
       = Inr (success, latency, err, det)"
    "out = PDict [(''target_name'', dict_get t ''name'' PNone), (''host'', dict_get t ''host'' PNone),
                  (''type'', dict_get t ''type'' (PStr ''ping'')),
                  (''status'', PStr (agent_status success latency)),
                  (''latency_ms'', PFloat (py_round2 latency)),
                  (''timestamp'', PStr (isoformat w (utcnow w))),
                  (''error'', err), (''details'', det)]"
    by (rule run_target_Inr)
  have e: "error_only_offline (PStr (agent_status success latency)) err"
  proof (cases success)
    case True
    then have "err = PNone" using h(1) by (auto dest: agent_probe_success)
    then show ?thesis by (simp add: error_only_offline_def)
  next
    case False
    then show ?thesis by (simp add: error_only_offline_def agent_status_def)
  qed
  show ?thesis unfolding h(2) using e by simp
qed

text \<open>
  C9. In every outcome that the pipeline produces (by \<^verbatim>\<open>check_target\<close>, by a cycle of
  \<^verbatim>\<open>run_checks\<close>, by \<^verbatim>\<open>run_target\<close>, by a cycle of \<^verbatim>\<open>run_cycle\<close>), a status online or
  degraded comes with the error None, and an error other than None comes with the status
  offline.
\<close>

theorem error_only_when_offline:
  "(\<forall>r. check_target w net tg = Inr r \<longrightarrow> error_only_offline (status r) (error r))
   \<and> (\<forall>r \<in> set (fst (snd (run_checks w net config d))). error_only_offline (status r) (error r))
   \<and> (\<forall>out. run_target w net tg = Inr out \<longrightarrow>
         (\<exists>kv st err. out = PDict kv \<and> map_of kv ''status'' = Some st \<and> map_of kv ''error'' = Some err
            \<and> error_only_offline st err))
   \<and> (\<forall>outs. run_cycle w net completed cfg = Some (Inr outs) \<longrightarrow>
         (\<forall>out \<in> set outs.
            \<exists>kv st err. out = PDict kv \<and> map_of kv ''status'' = Some st \<and> map_of kv ''error'' = Some err
              \<and> error_only_offline st err))"
proof (intro conjI allI impI ballI)
  fix r assume "check_target w net tg = Inr r"
  then show "error_only_offline (status r) (error r)" by (rule check_target_error)
next
  fix r assume "r \<in> set (fst (snd (run_checks w net config d)))"
  moreover have "\<forall>r \<in> set (fst (snd (run_checks w net config d))). error_only_offline (status r) (error r)"
    by (rule run_checks_outs) (rule cycle_result_error)
  ultimately show "error_only_offline (status r) (error r)" by blast
next
  fix out assume "run_target w net tg = Inr out"
  then show "\<exists>kv st err. out = PDict kv \<and> map_of kv ''status'' = Some st \<and> map_of kv ''error'' = Some err
            \<and> error_only_offline st err" by (rule run_target_error)
next
  fix outs out assume "run_cycle w net completed cfg = Some (Inr outs)" "out \<in> set outs"
  then obtain t where "run_target w net t = Inr out" using run_cycle_outs by blast
  then show "\<exists>kv st err. out = PDict kv \<and> map_of kv ''status'' = Some st \<and> map_of kv ''error'' = Some err
            \<and> error_only_offline st err" by (rule run_target_error)
qed


lemma round2_zero: "py_round2 (FReal 0) = FReal 0"
  by (simp add: round_half_even_def)

lemma check_target_valid:
  assumes "check_target w net tg = Inr r"
  shows "valid_status (status r)"
proof -
  from assms obtain name success latency err det where
    "r = \<lparr>target_name = name, status = PStr (app_status success latency),
          latency_ms = PFloat (py_round2 latency), timestamp = PStr (local_now_iso w),
          error = err, details = det\<rparr>"
    by (rule check_target_Inr)
  then show ?thesis by (simp add: valid_status_def app_status_def)
qed

lemma cycle_result_valid:
  assumes "cycle_result w t (check_target w net t) = Inr r"
  shows "valid_status (status r)"
proof (cases "check_target w net t")
  case (Inl e)
  then show ?thesis using assms
    by (auto simp: cycle_result_def valid_status_def split: sum.splits)
next
  case (Inr r0)
  then have "status r = status r0" using assms by (auto simp: cycle_result_def)
  then show ?thesis using check_target_valid [OF Inr] by simp
qed

lemma run_target_valid:
  assumes "run_target w net tg = Inr out"
  shows "\<exists>kv st. out = PDict kv \<and> map_of kv ''status'' = Some st \<and> valid_status st"
proof -
  from assms obtain t success latency err det where
    h: "out = PDict [(''target_name'', dict_get t ''name'' PNone), (''host'', dict_get t ''host'' PNone),
                  (''type'', dict_get t ''type'' (PStr ''ping'')),
                  (''status'', PStr (agent_status success latency)),
                  (''latency_ms'', PFloat (py_round2 latency)),
                  (''timestamp'', PStr (isoformat w (utcnow w))),
                  (''error'', err), (''details'', det)]"
    by (rule run_target_Inr)
  have "valid_status (PStr (agent_status success latency))"
    by (simp add: valid_status_def agent_status_def)
  then show ?thesis unfolding h by simp
qed

lemma check_target_unknown:
  assumes "map_of t ''host'' = Some host" and "map_of t ''name'' = Some name"
    and "unknown_type (dict_get t ''type'' (PStr ''ping''))"
  shows "check_target w net (PDict t) =
           Inr \<lparr>target_name = name, status = PStr ''offline'', latency_ms = PFloat (FReal 0),
                timestamp = PStr (local_now_iso w), error = PNone, details = PNone\<rparr>"
  using assms by (simp add: unknown_type_def app_probe_def app_status_def round_half_even_def)

lemma run_target_unknown:
  assumes "unknown_type (dict_get t ''type'' (PStr ''ping''))"
  shows "run_target w net (PDict t) =
           Inr (PDict [(''target_name'', dict_get t ''name'' PNone), (''host'', dict_get t ''host'' PNone),
                       (''type'', dict_get t ''type'' (PStr ''ping'')),
                       (''status'', PStr ''offline''),
                       (''latency_ms'', PFloat (FReal 0)),
                       (''timestamp'', PStr (isoformat w (utcnow w))),
                       (''error'', PStr ''Unknown type''), (''details'', PNone)])"
  using assms by (simp add: unknown_type_def agent_probe_def agent_status_def round_half_even_def)

lemma check_dns_Inl:
  "check_dns a net host srv = Inl e \<Longrightarrow> dig_run net host srv = DigNotFound (FallbackRaised e)"
  by (auto simp: check_dns_def split: dns_io.splits dns_fallback.splits if_splits)

lemma app_probe_Inl:
  "app_probe net ty host t = Inl e \<Longrightarrow>
     ty = PStr ''dns'' \<and> dig_run net host (dict_get t ''dns_server'' (PStr ''8.8.8.8'')) = DigNotFound (FallbackRaised e)"
  by (auto simp: app_probe_def split: if_splits dest: check_dns_Inl)

lemma agent_probe_Inl:
  "agent_probe net ty host t = Inl e \<Longrightarrow>
     ty = PStr ''dns'' \<and> dig_run net host (dict_get t ''dns_server'' (PStr ''8.8.8.8'')) = DigNotFound (FallbackRaised e)"
  by (auto simp: agent_probe_def split: if_splits dest: check_dns_Inl)

lemma check_target_Inl:
  assumes "check_target w net (PDict t) = Inl e"
  shows "(map_of t ''host'' = None \<and> e = KeyError ''host'')
       \<or> (map_of t ''name'' = None \<and> e = KeyError ''name'')
       \<or> (\<exists>host. map_of t ''host'' = Some host \<and> dict_get t ''type'' (PStr ''ping'') = PStr ''dns''
             \<and> dig_run net host (dict_get t ''dns_server'' (PStr ''8.8.8.8'')) = DigNotFound (FallbackRaised e))"
proof (cases "map_of t ''host''")
  case None
  then show ?thesis using assms by simp
next
  case (Some host)
  show ?thesis
  proof (cases "map_of t ''name''")
    case None
    then show ?thesis using assms Some by simp
  next
    case (Some name)
    from assms \<open>map_of t ''host'' = Some host\<close> Some
    have "app_probe net (dict_get t ''type'' (PStr ''ping'')) host t = Inl e"
      by (simp add: Let_def split: sum.splits prod.splits)
    from app_probe_Inl [OF this] show ?thesis using \<open>map_of t ''host'' = Some host\<close> by simp
  qed
qed

lemma run_target_Inl:
  assumes "run_target w net (PDict t) = Inl e"
  shows "dict_get t ''type'' (PStr ''ping'') = PStr ''dns''
       \<and> dig_run net (dict_get t ''host'' PNone) (dict_get t ''dns_server'' (PStr ''8.8.8.8''))
           = DigNotFound (FallbackRaised e)"
proof -
  from assms have "agent_probe net (dict_get t ''type'' (PStr ''ping'')) (dict_get t ''host'' PNone) t = Inl e"
    by (simp add: Let_def split: sum.splits prod.splits)
  from agent_probe_Inl [OF this] show ?thesis .
qed

text \<open>
  The status is always valid, and where the pipeline returns. Every outcome that the
  pipeline returns has one of the three status values. A target (a mapping; for
  \<^verbatim>\<open>check_target\<close> with a host and a name) whose type is none of the four protocols gets
  the outcome offline, with error None in the service and \<open>Unknown type\<close> in the agent,
  and no exception. For a target that is a mapping, the only exceptions are: in
  \<^verbatim>\<open>check_target\<close>, the KeyError of a missing host or name; in both, what the resolver
  raises in the fallback of the DNS probe.
\<close>

theorem status_is_valid:
  "(\<forall>r. check_target w net tg = Inr r \<longrightarrow> valid_status (status r))
   \<and> (\<forall>r \<in> set (fst (snd (run_checks w net config d))). valid_status (status r))
   \<and> (\<forall>out. run_target w net tg = Inr out \<longrightarrow>
         (\<exists>kv st. out = PDict kv \<and> map_of kv ''status'' = Some st \<and> valid_status st))
   \<and> (\<forall>outs. run_cycle w net completed cfg = Some (Inr outs) \<longrightarrow>
         (\<forall>out \<in> set outs. \<exists>kv st. out = PDict kv \<and> map_of kv ''status'' = Some st \<and> valid_status st))
   \<and> (\<forall>t host name.
         map_of t ''host'' = Some host \<and> map_of t ''name'' = Some name
         \<and> unknown_type (dict_get t ''type'' (PStr ''ping'')) \<longrightarrow>
         check_target w net (PDict t) =
           Inr \<lparr>target_name = name, status = PStr ''offline'', latency_ms = PFloat (FReal 0),
                timestamp = PStr (local_now_iso w), error = PNone, details = PNone\<rparr>)
   \<and> (\<forall>t. unknown_type (dict_get t ''type'' (PStr ''ping'')) \<longrightarrow>
         run_target w net (PDict t) =
           Inr (PDict [(''target_name'', dict_get t ''name'' PNone), (''host'', dict_get t ''host'' PNone),
                       (''type'', dict_get t ''type'' (PStr ''ping'')),
                       (''status'', PStr ''offline''),
                       (''latency_ms'', PFloat (FReal 0)),
                       (''timestamp'', PStr (isoformat w (utcnow w))),
                       (''error'', PStr ''Unknown type''), (''details'', PNone)]))
   \<and> (\<forall>t e. check_target w net (PDict t) = Inl e \<longrightarrow>
         (map_of t ''host'' = None \<and> e = KeyError ''host'')
         \<or> (map_of t ''name'' = None \<and> e = KeyError ''name'')
         \<or> (\<exists>host. map_of t ''host'' = Some host \<and> dict_get t ''type'' (PStr ''ping'') = PStr ''dns''
               \<and> dig_run net host (dict_get t ''dns_server'' (PStr ''8.8.8.8''))
                   = DigNotFound (FallbackRaised e)))
   \<and> (\<forall>t e. run_target w net (PDict t) = Inl e \<longrightarrow>
         dict_get t ''type'' (PStr ''ping'') = PStr ''dns''
         \<and> dig_run net (dict_get t ''host'' PNone) (dict_get t ''dns_server'' (PStr ''8.8.8.8''))
             = DigNotFound (FallbackRaised e))"
proof -
  have 1: "\<forall>r. check_target w net tg = Inr r \<longrightarrow> valid_status (status r)"
    using check_target_valid by blast
  have 2: "\<forall>r \<in> set (fst (snd (run_checks w net config d))). valid_status (status r)"
    by (rule run_checks_outs) (rule cycle_result_valid)
  have 3: "\<forall>out. run_target w net tg = Inr out \<longrightarrow>
         (\<exists>kv st. out = PDict kv \<and> map_of kv ''status'' = Some st \<and> valid_status st)"
    using run_target_valid by blast
  have 4: "\<forall>outs. run_cycle w net completed cfg = Some (Inr outs) \<longrightarrow>
         (\<forall>out \<in> set outs. \<exists>kv st. out = PDict kv \<and> map_of kv ''status'' = Some st \<and> valid_status st)"
  proof (intro allI impI ballI)
    fix outs out assume "run_cycle w net completed cfg = Some (Inr outs)" "out \<in> set outs"
    then obtain t where "run_target w net t = Inr out" using run_cycle_outs by blast
    then show "\<exists>kv st. out = PDict kv \<and> map_of kv ''status'' = Some st \<and> valid_status st"
      by (rule run_target_valid)
  qed
  have 5: "\<forall>t host name.
         map_of t ''host'' = Some host \<and> map_of t ''name'' = Some name
         \<and> unknown_type (dict_get t ''type'' (PStr ''ping'')) \<longrightarrow>
         check_target w net (PDict t) =
           Inr \<lparr>target_name = name, status = PStr ''offline'', latency_ms = PFloat (FReal 0),
                timestamp = PStr (local_now_iso w), error = PNone, details = PNone\<rparr>"
    using check_target_unknown by blast
  have 6: "\<forall>t. unknown_type (dict_get t ''type'' (PStr ''ping'')) \<longrightarrow>
         run_target w net (PDict t) =
           Inr (PDict [(''target_name'', dict_get t ''name'' PNone), (''host'', dict_get t ''host'' PNone),
                       (''type'', dict_get t ''type'' (PStr ''ping'')),
                       (''status'', PStr ''offline''),
                       (''latency_ms'', PFloat (FReal 0)),
                       (''timestamp'', PStr (isoformat w (utcnow w))),
                       (''error'', PStr ''Unknown type''), (''details'', PNone)])"
    using run_target_unknown by blast
  have 7: "\<forall>t e. check_target w net (PDict t) = Inl e \<longrightarrow>
         (map_of t ''host'' = None \<and> e = KeyError ''host'')
         \<or> (map_of t ''name'' = None \<and> e = KeyError ''name'')
         \<or> (\<exists>host. map_of t ''host'' = Some host \<and> dict_get t ''type'' (PStr ''ping'') = PStr ''dns''
               \<and> dig_run net host (dict_get t ''dns_server'' (PStr ''8.8.8.8''))
                   = DigNotFound (FallbackRaised e))"
    using check_target_Inl by blast
  have 8: "\<forall>t e. run_target w net (PDict t) = Inl e \<longrightarrow>
         dict_get t ''type'' (PStr ''ping'') = PStr ''dns''
         \<and> dig_run net (dict_get t ''host'' PNone) (dict_get t ''dns_server'' (PStr ''8.8.8.8''))
             = DigNotFound (FallbackRaised e)"
    using run_target_Inl by blast
  show ?thesis using 1 2 3 4 5 6 7 8 by (intro conjI)
qed


lemmas example_defs = example_world_def example_network_def example_target_def
  app_probe_def agent_probe_def check_http_def check_tcp_def check_dns_def ping_host_def
  app_status_def agent_status_def dict_get_def round_half_even_def Let_def


text \<open>The service on the two example targets: no exception, an offline outcome with the
  text of the exception for the first, the outcome of the second, and both stored.\<close>

lemma app_cycle_no_exception: "fst (run_checks example_world example_network example_app_config example_db) = None"
  by (simp add: run_checks_def example_app_config_def example_targets_def example_defs
      cycle_result_def cache_update_def insert_check_def bound_params_def target_param_def details_param_def)

lemma app_cycle_outcomes: "fst (snd (run_checks example_world example_network example_app_config example_db)) =
   [\<lparr>target_name = PStr ''resolver'', status = PStr ''offline'', latency_ms = PFloat (FReal 0),
         timestamp = PStr ''1970-01-01T00:00:00+00:00'', error = PStr ''label empty or too long'',
         details = PNone\<rparr>,
    \<lparr>target_name = PStr ''web'', status = PStr ''online'', latency_ms = PFloat (FReal 120),
         timestamp = PStr ''1970-01-01T00:00:00+00:00'', error = PNone,
         details = PDict [(''status_code'', PInt 200), (''content_type'', PStr ''text/html'')]\<rparr>]"
  by (simp add: run_checks_def example_app_config_def example_targets_def example_defs
      cycle_result_def cache_update_def insert_check_def bound_params_def target_param_def details_param_def)

lemma app_cycle_persisted: "map col_status (checks (snd (snd (run_checks example_world example_network example_app_config example_db))))
   = [Some ''online'', Some ''offline'', Some ''degraded'', Some ''online'', Some ''offline'', Some ''online'']"
  by (simp add: run_checks_def example_app_config_def example_targets_def example_defs
      cycle_result_def cache_update_def insert_check_def bound_params_def target_param_def details_param_def
      insert_cols_def sql_insert_def example_db_def example_row_def check_cols.extend_def row.fields_def)


text \<open>A target without a name ends the cycle of the service as well: the handler
  itself raises when it reads the name, before the outcome of any later target is stored.\<close>

lemma app_cycle_nameless_aborts:
  "run_checks example_world example_network
     [(''targets'', PList [PDict [(''host'', PStr ''10.0.0.1'')],
                           example_target ''web'' ''http'' ''https://example.test/200''])]
     example_db
   = (Some (KeyError ''name''), [], example_db)"
  by (simp add: run_checks_def example_defs cycle_result_def)

lemma await_all_raises: "Inl e \<in> set futs \<Longrightarrow> \<exists>e'. await_all futs acc = Inl e'"
proof (induction futs acc rule: await_all.induct)
  case (1 results)
  then show ?case by simp
next
  case (2 e' futs results)
  then show ?case by simp
next
  case (3 r futs results)
  then show ?case by simp
qed

lemma run_cycle_raises:
  assumes "dict_get cfg ''targets'' (PList []) = PList ts"
    and "i \<in> set completed" and "i < length ts"
    and "run_target w net (ts ! i) = Inl e"
    and "semaphore_locked (dict_get cfg ''concurrency'' (PInt 6)) = Inr False"
  shows "\<exists>e'. run_cycle w net completed cfg = Some (Inl e')"
proof -
  have "Inl e \<in> set (map (\<lambda>i. run_target w net (ts ! i)) (filter (\<lambda>i. i < length ts) completed))"
    using assms(2,3,4) by (auto simp: image_iff intro!: bexI [of _ i])
  from await_all_raises [OF this, of "[]"] show ?thesis
    using assms(1,5) by (auto simp: run_cycle_def)
qed

text \<open>The semaphore: with a free slot the cycle returns; with none it does not, unless
  there is no target; a negative value raises before any probe.\<close>

lemma run_cycle_returns:
  assumes "semaphore_locked (dict_get cfg ''concurrency'' (PInt 6)) = Inr False"
  shows "\<exists>res. run_cycle w net completed cfg = Some res"
  using assms by (simp add: run_cycle_def split: sum.splits)

lemma run_cycle_semaphore:
  "run_cycle example_world example_network [0, 1]
      [(''concurrency'', PInt 0), (''targets'', PList example_targets)] = None
   \<and> run_cycle example_world example_network [] [(''concurrency'', PInt 0)] = Some (Inr [])
   \<and> run_cycle example_world example_network [0, 1]
      [(''concurrency'', PInt (- 1)), (''targets'', PList example_targets)]
     = Some (Inl (ValueError ''Semaphore initial value must be >= 0''))"
  by (simp add: run_cycle_def dict_get_def example_targets_def)

lemma run_checks_loop_converts:
  assumes "\<forall>(t, res) \<in> set pairs. \<exists>r. cycle_result w t res = Inr r \<and> cache_update config r = None"
  shows "\<exists>rs d'. run_checks_loop w config a pairs outs d = (None, outs @ rs, d')
           \<and> map Inr rs = map (\<lambda>(t, res). cycle_result w t res) pairs"
  using assms
proof (induction pairs arbitrary: outs d)
  case Nil
  then show ?case by simp
next
  case (Cons p pairs)
  obtain t res where p: "p = (t, res)" by (cases p)
  from Cons.prems p obtain r where r: "cycle_result w t res = Inr r" "cache_update config r = None"
    by auto
  let ?d1 = "case insert_check w a t r d of Inl e \<Rightarrow> d | Inr d1 \<Rightarrow> d1"
  have "\<forall>(t, res) \<in> set pairs. \<exists>r. cycle_result w t res = Inr r \<and> cache_update config r = None"
    using Cons.prems by simp
  from Cons.IH [OF this, of "outs @ [r]" ?d1] obtain rs d' where
    ih: "run_checks_loop w config a pairs (outs @ [r]) ?d1 = (None, (outs @ [r]) @ rs, d')"
        "map Inr rs = map (\<lambda>(t, res). cycle_result w t res) pairs" by blast
  have "run_checks_loop w config a (p # pairs) outs d = (None, outs @ (r # rs), d')"
    using p r ih(1) by (simp add: Let_def)
  moreover have "map Inr (r # rs) = map (\<lambda>(t, res). cycle_result w t res) (p # pairs)"
    using p r(1) ih(2) by simp
  ultimately show ?case by blast
qed

lemma cycle_result_named:
  assumes "map_of kv ''name'' = Some (PStr n)"
  shows "\<exists>r. cycle_result w (PDict kv) (check_target w net (PDict kv)) = Inr r \<and> target_name r = PStr n"
proof (cases "check_target w net (PDict kv)")
  case (Inl e)
  then show ?thesis using assms by (simp add: cycle_result_def)
next
  case (Inr r0)
  then obtain t host name success latency err det where
    h: "PDict kv = PDict t" "map_of t ''name'' = Some name"
    "r0 = \<lparr>target_name = name, status = PStr (app_status success latency),
          latency_ms = PFloat (py_round2 latency), timestamp = PStr (local_now_iso w),
          error = err, details = det\<rparr>"
    by (rule check_target_Inr)
  then have "target_name r0 = PStr n" using assms by simp
  then show ?thesis using Inr by (simp add: cycle_result_def)
qed

lemma map_zip_map: "map (\<lambda>(t, res). g t res) (zip ts (map f ts)) = map (\<lambda>t. g t (f t)) ts"
  by (induction ts) simp_all

lemma run_checks_converts:
  assumes ts: "dict_get config ''targets'' (PList []) = PList ts"
    and names: "\<forall>t \<in> set ts. \<exists>kv n. t = PDict kv \<and> map_of kv ''name'' = Some (PStr n)"
    and hs: "is_number (dict_get config ''history_size'' (PInt 100))"
  shows "fst (run_checks w net config d) = None
       \<and> map Inr (fst (snd (run_checks w net config d)))
           = map (\<lambda>t. cycle_result w t (check_target w net t)) ts"
proof -
  let ?pairs = "zip ts (map (check_target w net) ts)"
  have "\<forall>(t, res) \<in> set ?pairs. \<exists>r. cycle_result w t res = Inr r \<and> cache_update config r = None"
  proof (clarify)
    fix t res assume m: "(t, res) \<in> set ?pairs"
    then have res: "res = check_target w net t" by (rule zip_map_snd)
    have "t \<in> set ts" using m by (rule set_zip_leftD)
    with names obtain kv n where kv: "t = PDict kv" "map_of kv ''name'' = Some (PStr n)" by blast
    from cycle_result_named [OF kv(2), of w net] obtain r where
      "cycle_result w t res = Inr r" "target_name r = PStr n" using kv(1) res by blast
    then show "\<exists>r. cycle_result w t res = Inr r \<and> cache_update config r = None"
      using hs by (auto simp: cache_update_def)
  qed
  from run_checks_loop_converts [OF this, of "dict_get config ''agent_id'' (PStr ''local'')" "[]" d]
  obtain rs d' where
    l: "run_checks_loop w config (dict_get config ''agent_id'' (PStr ''local'')) ?pairs [] d = (None, rs, d')"
       "map Inr rs = map (\<lambda>(t, res). cycle_result w t res) ?pairs" by auto
  have "map (\<lambda>(t, res). cycle_result w t res) ?pairs = map (\<lambda>t. cycle_result w t (check_target w net t)) ts"
    by (rule map_zip_map)
  then show ?thesis using l ts by (simp add: run_checks_def)
qed

theorem status_derivation_witness:
  "\<exists>r. check_target example_world example_network (example_target ''slow'' ''http'' ''https://slow.test'') = Inr r
       \<and> status r = PStr ''degraded''"
proof -
  let ?tg = "example_target ''slow'' ''http'' ''https://slow.test''"
  have "\<exists>r. check_target example_world example_network ?tg = Inr r"
    by (simp add: example_defs)
  then obtain r where r: "check_target example_world example_network ?tg = Inr r" ..
  from status_derivation [of example_world example_network ?tg] r
  obtain t host success latency err det where
    h: "?tg = PDict t" "map_of t ''host'' = Some host"
       "app_probe example_network (dict_get t ''type'' (PStr ''ping'')) host t = Inr (success, latency, err, det)"
       "success \<and> float_gt latency 500 \<longrightarrow> status r = PStr ''degraded''"
    by blast
  have t: "t = [(''name'', PStr ''slow''), (''type'', PStr ''http''), (''host'', PStr ''https://slow.test'')]"
    using h(1) by (simp add: example_target_def)
  have host: "host = PStr ''https://slow.test''" using h(2) t by simp
  have "success \<and> latency = FReal 620" using h(3) unfolding t host by (simp add: example_defs)
  then show ?thesis using h(4) r by simp
qed

text \<open>
  C1 as stated, on the field \<open>latency_ms\<close>, fails between 500 and 500.005: the check of
  the URL that answers in 500.004 ms succeeds, the outcome has \<open>latency_ms = 500.0\<close>,
  which is not above 500, and its status is degraded, in the service and in the agent.
\<close>

theorem status_at_stored_500:
  "check_target example_world example_network (example_target ''edge'' ''http'' ''https://edge.test'')
     = Inr \<lparr>target_name = PStr ''edge'', status = PStr ''degraded'', latency_ms = PFloat (FReal 500),
            timestamp = PStr ''2026-01-02T01:01:00'', error = PNone,
            details = PDict [(''status_code'', PInt 200), (''content_type'', PStr ''text/html'')]\<rparr>
   \<and> run_target example_world example_network (example_target ''edge'' ''http'' ''https://edge.test'')
     = Inr (PDict [(''target_name'', PStr ''edge''), (''host'', PStr ''https://edge.test''),
                   (''type'', PStr ''http''), (''status'', PStr ''degraded''),
                   (''latency_ms'', PFloat (FReal 500)),
                   (''timestamp'', PStr ''1970-01-01T00:00:00+00:00''), (''error'', PNone),
                   (''details'', PDict [(''status_code'', PInt 200), (''content_type'', PStr ''text/html'')])])
   \<and> float_le (FReal 500) 500"
proof -
  have r: "py_round2 (FReal (125001 / 250)) = FReal 500"
    using rounded_500 by (simp del: py_round2.simps)
  show ?thesis
    by (simp add: example_world_def example_network_def example_target_def app_probe_def agent_probe_def
        check_http_def app_status_def agent_status_def dict_get_def Let_def r del: py_round2.simps)
qed

theorem error_only_when_offline_witness:
  "\<exists>r. check_target example_world example_network (example_target ''svc'' ''tcp'' ''127.0.0.1'') = Inr r
       \<and> error r = PStr ''Connection refused (error: 111)'' \<and> status r = PStr ''offline''"
proof -
  let ?tg = "example_target ''svc'' ''tcp'' ''127.0.0.1''"
  have "\<exists>r. check_target example_world example_network ?tg = Inr r
          \<and> error r = PStr ''Connection refused (error: 111)''"
    by (simp add: example_defs str_int_def)
  then obtain r where r: "check_target example_world example_network ?tg = Inr r"
    "error r = PStr ''Connection refused (error: 111)''" by blast
  from error_only_when_offline [of example_world example_network ?tg] r(1)
  have "error_only_offline (status r) (error r)" by blast
  then have "status r = PStr ''offline''" using r(2) by (simp add: error_only_offline_def)
  then show ?thesis using r by blast
qed

theorem status_is_valid_witness:
  "unknown_type (PStr ''icmp'')
   \<and> check_target example_world example_network (example_target ''gw'' ''icmp'' ''10.0.0.1'')
       = Inr \<lparr>target_name = PStr ''gw'', status = PStr ''offline'', latency_ms = PFloat (FReal 0),
              timestamp = PStr ''2026-01-02T01:01:00'', error = PNone, details = PNone\<rparr>
   \<and> run_target example_world example_network (example_target ''gw'' ''icmp'' ''10.0.0.1'')
       = Inr (PDict [(''target_name'', PStr ''gw''), (''host'', PStr ''10.0.0.1''), (''type'', PStr ''icmp''),
                     (''status'', PStr ''offline''), (''latency_ms'', PFloat (FReal 0)),
                     (''timestamp'', PStr ''1970-01-01T00:00:00+00:00''),
                     (''error'', PStr ''Unknown type''), (''details'', PNone)])"
proof -
  let ?t = "[(''name'', PStr ''gw''), (''type'', PStr ''icmp''), (''host'', PStr ''10.0.0.1'')]"
  have u: "unknown_type (PStr ''icmp'')" by (simp add: unknown_type_def)
  have g: "dict_get ?t ''type'' (PStr ''ping'') = PStr ''icmp''" "dict_get ?t ''name'' PNone = PStr ''gw''"
    "dict_get ?t ''host'' PNone = PStr ''10.0.0.1''" by (simp_all add: dict_get_def)
  have m: "map_of ?t ''host'' = Some (PStr ''10.0.0.1'')" "map_of ?t ''name'' = Some (PStr ''gw'')"
    by simp_all
  note v = status_is_valid [of example_world example_network "PDict ?t" "[]" example_db "[]" "[]"]
  have a: "check_target example_world example_network (PDict ?t) =
           Inr \<lparr>target_name = PStr ''gw'', status = PStr ''offline'', latency_ms = PFloat (FReal 0),
                timestamp = PStr (local_now_iso example_world), error = PNone, details = PNone\<rparr>"
    using v [THEN conjunct2, THEN conjunct2, THEN conjunct2, THEN conjunct2, THEN conjunct1,
             rule_format, of ?t "PStr ''10.0.0.1''" "PStr ''gw''"] m u g(1)
    by simp
  have b: "run_target example_world example_network (PDict ?t) =
           Inr (PDict [(''target_name'', dict_get ?t ''name'' PNone), (''host'', dict_get ?t ''host'' PNone),
                       (''type'', dict_get ?t ''type'' (PStr ''ping'')),
                       (''status'', PStr ''offline''),
                       (''latency_ms'', PFloat (FReal 0)),
                       (''timestamp'', PStr (isoformat example_world (utcnow example_world))),
                       (''error'', PStr ''Unknown type''), (''details'', PNone)])"
    using v [THEN conjunct2, THEN conjunct2, THEN conjunct2, THEN conjunct2, THEN conjunct2,
             THEN conjunct1, rule_format, of ?t] u g(1)
    by simp
  show ?thesis using u a b unfolding g by (simp add: example_target_def example_world_def)
qed

text \<open>
  C10. The claim is that the pipeline returns a well-formed outcome for every target.
  On the DNS target of the example, where \<^verbatim>\<open>dig\<close> is missing and the resolver raises in
  the fallback, \<^verbatim>\<open>run_target\<close> of the agent returns no outcome but the exception, which
  \<^verbatim>\<open>run_cycle\<close> does not catch (see \<open>run_cycle_raises\<close>); \<^verbatim>\<open>check_target\<close> of the service
  raises as well, and there \<^verbatim>\<open>run_checks\<close> makes the offline outcome of it. What the
  claim says of the status values and of an unknown type holds (\<open>status_is_valid\<close>).
\<close>

theorem probe_raises_no_outcome:
  "run_target example_world example_network (example_target ''resolver'' ''dns'' ''example..com'')
     = Inl (OtherError ''label empty or too long'')
   \<and> check_target example_world example_network (example_target ''resolver'' ''dns'' ''example..com'')
     = Inl (OtherError ''label empty or too long'')"
  by (simp add: example_defs)

text \<open>
  C8. The claim is that a check that raises becomes an offline outcome with the text of
  the exception, and that the other outcomes of the cycle are still produced. In the
  agent, the cycle over the DNS target of the example and a healthy target ends with the
  exception, in whichever order the two checks complete: no outcome is made for the
  failed target, and the outcome of the other one is lost. The service does what the
  claim says on the same targets (\<open>run_checks_converts\<close>, \<open>app_cycle_outcomes\<close>,
  \<open>app_cycle_persisted\<close>).
\<close>

theorem agent_cycle_aborts:
  "run_cycle example_world example_network [0, 1] example_agent_config
     = Some (Inl (OtherError ''label empty or too long''))
   \<and> run_cycle example_world example_network [1, 0] example_agent_config
     = Some (Inl (OtherError ''label empty or too long''))"
  by (simp add: run_cycle_def example_agent_config_def example_targets_def example_defs)


end
